theory Spec2Isabelle
  imports Complex_Main "HOL-Library.AList"
begin

section \<open>Numbers\<close>

text \<open>
  JavaScript numbers are modelled by the reals: \<open>Math.sqrt\<close> by \<^const>\<open>sqrt\<close> on
  non-negative arguments, \<open>Math.pow(m, 0.25)\<close> by \<open>m powr (1/4)\<close> on positive
  arguments, \<open>Math.floor\<close> by \<^const>\<open>floor\<close>. Rounding error, NaN and the
  infinities are outside the model; theorems carry the hypotheses that keep the
  arguments inside these domains.
\<close>

section \<open>Server: the physics module\<close>

text \<open>
  A point \<open>{x, y}\<close>. The physics functions read only the fields they need from whatever
  object they are given, so they are typed over every record that extends a point.
\<close>

record Vector2D =
  x :: real
  y :: real

record WorldBounds =
  width :: real
  height :: real

text \<open>
  A server entity: the object built by \<open>createEntity\<close>, with the fields later code adds
  (\<open>killedBy\<close>, \<open>deathTime\<close>) and the optional ones a configuration may carry.
  Timestamps are milliseconds.
\<close>

record entity = Vector2D +
  eid :: string
  etype :: string
  vx :: real
  vy :: real
  mass :: real
  radius :: real
  isAlive :: bool
  createdAt :: int
  lastInputTime :: int
  killedBy :: "string option"
  deathTime :: "int option"
  ownerId :: "string option"
  lifetime :: "int option"
  role :: "string option"
  color :: "string option"
  name :: "string option"

definition radiusFromMass :: "real \<Rightarrow> real" where
  "radiusFromMass m = (if m \<le> 0 then 0 else sqrt (m / pi))"

definition massFromRadius :: "real \<Rightarrow> real" where
  "massFromRadius r = (if r \<le> 0 then 0 else pi * r * r)"

definition vMaxFromMass :: "real \<Rightarrow> real" where
  "vMaxFromMass m =
     (if m \<le> 0 then 220
      else (let baseSpeed = 220 / (m powr (1/4)) in max 18 (min 220 baseSpeed)))"

text \<open>The damping factor is a default argument (0.98); every caller leaves it out.\<close>

definition applyDamping :: "real \<Rightarrow> real" where
  "applyDamping velocity = velocity * (98 / 100)"

definition checkCollision :: "entity \<Rightarrow> entity \<Rightarrow> bool" where
  "checkCollision entity1 entity2 =
     (let dx = x entity2 - x entity1;
          dy = y entity2 - y entity1;
          distance = sqrt (dx * dx + dy * dy);
          minDistance = radius entity1 + radius entity2
      in distance < minDistance)"

definition distance :: "'a Vector2D_scheme \<Rightarrow> 'b Vector2D_scheme \<Rightarrow> real" where
  "distance pos1 pos2 =
     (let dx = x pos2 - x pos1; dy = y pos2 - y pos1 in sqrt (dx * dx + dy * dy))"

definition normalize :: "'a Vector2D_scheme \<Rightarrow> Vector2D" where
  "normalize v =
     (let magnitude = sqrt (x v * x v + y v * y v)
      in if magnitude = 0 then \<lparr>x = 0, y = 0\<rparr>
         else \<lparr>x = x v / magnitude, y = y v / magnitude\<rparr>)"

definition clampToWorld :: "'a Vector2D_scheme \<Rightarrow> real \<Rightarrow> WorldBounds \<Rightarrow> Vector2D" where
  "clampToWorld position r worldBounds =
     \<lparr>x = max r (min (width worldBounds - r) (x position)),
      y = max r (min (height worldBounds - r) (y position))\<rparr>"

definition integratePosition :: "entity \<Rightarrow> real \<Rightarrow> Vector2D" where
  "integratePosition e deltaT =
     \<lparr>x = x e + vx e * deltaT, y = y e + vy e * deltaT\<rparr>"

definition canEat :: "entity \<Rightarrow> entity \<Rightarrow> bool" where
  "canEat predator prey = (mass predator > mass prey * (11 / 10))"

text \<open>The absorption efficiency is a default argument (1.0); the caller leaves it out.\<close>

definition calculateNewMass :: "real \<Rightarrow> real \<Rightarrow> real" where
  "calculateNewMass predatorMass preyMass = predatorMass + (preyMass * 1)"

definition INITIAL_PLAYER_MASS :: real where
  "INITIAL_PLAYER_MASS = 100"

section \<open>Server: the game engine\<close>

subsection \<open>State\<close>

record actionData =
  dir :: "Vector2D option"

text \<open>
  An action as the transport hands it over. A missing or empty \<open>type\<close> or \<open>playerId\<close>
  is the empty string; \<open>serverTimestamp\<close> and \<open>targetTick\<close> are added on enqueueing.
\<close>

record action =
  atype :: string
  playerId :: string
  ts :: int
  data :: "actionData option"
  serverTimestamp :: "int option"
  targetTick :: "nat option"

record stats =
  totalPlayers :: nat
  activePlayers :: nat
  pelletsCount :: nat
  actionsProcessed :: nat
  lastStepDuration :: real

text \<open>
  \<open>entities\<close> is a JavaScript \<open>Map\<close>: keys are unique, iteration follows insertion
  order, \<open>set\<close> on a present key keeps its place (\<^const>\<open>AList.update\<close>), \<open>delete\<close>
  removes the key (\<^const>\<open>AList.delete\<close>).
\<close>

record gameState =
  roomId :: string
  tickHz :: real
  worldBounds :: WorldBounds
  entities :: "(string \<times> entity) list"
  actionQueue :: "action list"
  isRunning :: bool
  currentTick :: nat
  deltaTime :: real
  gstats :: stats

text \<open>
  What one tick reads from outside the program: the clock (\<open>Date.now()\<close>, one reading
  per tick), the time spent in the action queue after the k-th action of this tick
  (\<open>performance.now() - startTime\<close>), the results of the random draws
  (\<open>generateRandomPosition\<close>, which samples \<open>Math.random\<close>, the colour of a new player,
  \<open>uuidv4\<close>) as functions of the entity store at the moment of the draw, and the
  measured duration of the step.
\<close>

record env =
  now :: int
  elapsed :: "nat \<Rightarrow> real"
  randomPosition :: "(string \<times> entity) list \<Rightarrow> Vector2D"
  randomColor :: "(string \<times> entity) list \<Rightarrow> string"
  uuidv4 :: "(string \<times> entity) list \<Rightarrow> string"
  stepDuration :: real

subsection \<open>Entities\<close>

text \<open>
  The configuration object of \<open>createEntity\<close>: a property is present (\<open>Some\<close>) or not.
  The object literal takes \<open>config.f || default\<close> and then spreads \<open>config\<close> over it, so a
  present property always wins and an absent one gets the default.
\<close>

record entityConfig =
  c_id :: "string option"
  c_type :: "string option"
  c_x :: "real option"
  c_y :: "real option"
  c_vx :: "real option"
  c_vy :: "real option"
  c_mass :: "real option"
  c_ownerId :: "string option"
  c_lifetime :: "int option"
  c_role :: "string option"
  c_color :: "string option"
  c_name :: "string option"

definition emptyConfig :: entityConfig where
  "emptyConfig = \<lparr>c_id = None, c_type = None, c_x = None, c_y = None, c_vx = None,
     c_vy = None, c_mass = None, c_ownerId = None, c_lifetime = None, c_role = None,
     c_color = None, c_name = None\<rparr>"

definition orDefault :: "'a option \<Rightarrow> 'a \<Rightarrow> 'a" where
  "orDefault v d = (case v of Some a \<Rightarrow> a | None \<Rightarrow> d)"

definition createEntity :: "int \<Rightarrow> string \<Rightarrow> entityConfig \<Rightarrow> entity" where
  "createEntity t uuid config =
     (let e = \<lparr>x = orDefault (c_x config) 0,
               y = orDefault (c_y config) 0,
               eid = orDefault (c_id config) uuid,
               etype = orDefault (c_type config) ''player'',
               vx = orDefault (c_vx config) 0,
               vy = orDefault (c_vy config) 0,
               mass = orDefault (c_mass config) INITIAL_PLAYER_MASS,
               radius = 0,
               isAlive = True,
               createdAt = t,
               lastInputTime = t,
               killedBy = None,
               deathTime = None,
               ownerId = c_ownerId config,
               lifetime = c_lifetime config,
               role = c_role config,
               color = c_color config,
               name = c_name config\<rparr>
      in e\<lparr>radius := radiusFromMass (mass e)\<rparr>)"

definition addPlayer :: "env \<Rightarrow> string \<Rightarrow> gameState \<Rightarrow> gameState" where
  "addPlayer ev pid s =
     (if map_of (entities s) pid \<noteq> None then s
      else
        (let spawnPosition = randomPosition ev (entities s);
             player = createEntity (now ev) (uuidv4 ev (entities s))
               (emptyConfig\<lparr>c_id := Some pid, c_type := Some ''player'',
                  c_x := Some (x spawnPosition), c_y := Some (y spawnPosition),
                  c_mass := Some INITIAL_PLAYER_MASS, c_role := Some ''basic'',
                  c_color := Some (randomColor ev (entities s)),
                  c_name := Some (''Player_'' @ take 8 pid)\<rparr>)
         in s\<lparr>entities := AList.update pid player (entities s),
              gstats := (gstats s)\<lparr>totalPlayers := totalPlayers (gstats s) + 1\<rparr>\<rparr>))"

subsection \<open>Actions\<close>

definition enqueueAction :: "int \<Rightarrow> action \<Rightarrow> gameState \<Rightarrow> gameState \<times> bool" where
  "enqueueAction t a s =
     (if atype a = [] \<or> playerId a = [] then (s, False)
      else (s\<lparr>actionQueue := actionQueue s @
                [a\<lparr>serverTimestamp := Some t, targetTick := Some (currentTick s + 1)\<rparr>]\<rparr>,
            True))"

definition processInputAction :: "env \<Rightarrow> entity \<Rightarrow> actionData option \<Rightarrow> entity" where
  "processInputAction ev e inputData =
     (case inputData of
        None \<Rightarrow> e
      | Some d \<Rightarrow>
          (case dir d of
             None \<Rightarrow> e
           | Some v \<Rightarrow>
               (let direction = normalize v;
                    maxSpeed = vMaxFromMass (mass e)
                in e\<lparr>vx := x direction * maxSpeed,
                     vy := y direction * maxSpeed,
                     lastInputTime := now ev\<rparr>)))"

text \<open>
  \<open>processSplitAction\<close> changes the entity object in place and stores the fragment
  under the fragment's id. The model is given the key \<open>k\<close> under which the object sits
  in the store and returns the store after both writes.
\<close>

definition processSplitAction ::
  "env \<Rightarrow> string \<Rightarrow> entity \<Rightarrow> (string \<times> entity) list \<Rightarrow> (string \<times> entity) list" where
  "processSplitAction ev k e store =
     (if mass e < 50 then store
      else
        (let newMass = mass e / 2;
             e1 = e\<lparr>mass := newMass, radius := radiusFromMass newMass\<rparr>;
             store1 = AList.update k e1 store;
             fragment = createEntity (now ev) (uuidv4 ev store1)
               (emptyConfig\<lparr>c_type := Some ''fragment'', c_ownerId := Some (eid e1),
                  c_x := Some (x e1 + radius e1 * 2), c_y := Some (y e1),
                  c_mass := Some newMass, c_vx := Some (vx e1 * (3 / 2)),
                  c_vy := Some (vy e1 * (3 / 2)), c_lifetime := Some 30000\<rparr>)
         in AList.update (eid fragment) fragment store1))"

text \<open>
  \<open>processAction\<close>: the handlers for \<open>ability\<close> and \<open>orb_collect\<close> only log. The entity
  found under \<open>playerId\<close> is changed in place, that is, under the key it was found at.
\<close>

definition processAction :: "env \<Rightarrow> action \<Rightarrow> gameState \<Rightarrow> gameState" where
  "processAction ev a s =
     (case map_of (entities s) (playerId a) of
        None \<Rightarrow>
          (if atype a = ''input'' \<or> atype a = ''spawn'' then addPlayer ev (playerId a) s
           else s)
      | Some e \<Rightarrow>
          (if atype a = ''input''
             then s\<lparr>entities :=
                      AList.update (playerId a) (processInputAction ev e (data a)) (entities s)\<rparr>
           else if atype a = ''ability'' then s
           else if atype a = ''split''
             then s\<lparr>entities := processSplitAction ev (playerId a) e (entities s)\<rparr>
           else if atype a = ''orb_collect'' then s
           else s))"

text \<open>
  The loop of \<open>processActionQueue\<close>: \<open>shift\<close> takes the head of the queue, the action is
  processed, and the time is checked after it. The queue is carried beside the state
  while the loop runs (\<open>processAction\<close> never reads it). The result is the queue that
  is left, the count, whether the warning was logged, and the state.
\<close>

fun drainLoop ::
  "env \<Rightarrow> nat \<Rightarrow> action list \<Rightarrow> gameState \<Rightarrow> action list \<times> nat \<times> bool \<times> gameState" where
  "drainLoop ev processedCount [] s = ([], processedCount, False, s)"
| "drainLoop ev processedCount (a # queue) s =
     (let s1 = processAction ev a s;
          n = processedCount + 1
      in if elapsed ev n > 50 then (queue, n, True, s1)
         else drainLoop ev n queue s1)"

definition processActionQueue :: "env \<Rightarrow> gameState \<Rightarrow> gameState \<times> bool" where
  "processActionQueue ev s =
     (case drainLoop ev 0 (actionQueue s) s of
        (queue, processedCount, warned, s1) \<Rightarrow>
          (s1\<lparr>actionQueue := queue,
               gstats := (gstats s1)\<lparr>actionsProcessed :=
                  actionsProcessed (gstats s1) + processedCount\<rparr>\<rparr>,
           warned))"

subsection \<open>Physics integration\<close>

text \<open>
  The body of the loop of \<open>integratePhysics\<close> for one entity that is not a pellet, one
  assignment after the other. The test that decides the halving reads \<open>entity.x\<close> and
  \<open>entity.y\<close> after they have been assigned the clamped position.
\<close>

definition integrateEntity :: "real \<Rightarrow> WorldBounds \<Rightarrow> entity \<Rightarrow> entity" where
  "integrateEntity deltaT bounds e =
     (let newPos = integratePosition e deltaT;
          e1 = e\<lparr>x := x newPos, y := y newPos\<rparr>;
          e2 = e1\<lparr>vx := applyDamping (vx e1)\<rparr>;
          e3 = e2\<lparr>vy := applyDamping (vy e2)\<rparr>;
          clampedPos = clampToWorld e3 (radius e3) bounds;
          e4 = e3\<lparr>x := x clampedPos, y := y clampedPos\<rparr>
      in if x clampedPos \<noteq> x e4 \<or> y clampedPos \<noteq> y e4
         then e4\<lparr>vx := vx e4 * (1 / 2), vy := vy e4 * (1 / 2)\<rparr>
         else e4)"

definition integratePhysics :: "gameState \<Rightarrow> gameState" where
  "integratePhysics s =
     s\<lparr>entities := map (\<lambda>(k, e).
           if etype e = ''pellet'' then (k, e)
           else (k, integrateEntity (deltaTime s) (worldBounds s) e)) (entities s)\<rparr>"

subsection \<open>Collisions\<close>

text \<open>
  \<open>handleCollision\<close> changes the two objects in place; the model returns both, in the
  order of the arguments.
\<close>

definition eat :: "int \<Rightarrow> entity \<Rightarrow> entity \<Rightarrow> entity \<times> entity" where
  "eat t predator prey =
     (let newMass = calculateNewMass (mass predator) (mass prey);
          predator1 = predator\<lparr>mass := newMass, radius := radiusFromMass newMass\<rparr>
      in (predator1,
          prey\<lparr>isAlive := False, killedBy := Some (eid predator1), deathTime := Some t\<rparr>))"

definition handleCollision :: "int \<Rightarrow> entity \<Rightarrow> entity \<Rightarrow> entity \<times> entity" where
  "handleCollision t entityA entityB =
     (if canEat entityA entityB then eat t entityA entityB
      else if canEat entityB entityA
        then (case eat t entityB entityA of (predator, prey) \<Rightarrow> (prey, predator))
      else (entityA, entityB))"

text \<open>The body of the double loop of \<open>processCollisions\<close>, on one pair.\<close>

definition collidePair :: "int \<Rightarrow> entity \<Rightarrow> entity \<Rightarrow> entity \<times> entity" where
  "collidePair t entityA entityB =
     (if checkCollision entityA entityB then handleCollision t entityA entityB
      else (entityA, entityB))"

text \<open>
  \<open>processCollisions\<close> copies the values of the map into an array and runs over the
  index pairs \<open>i < j\<close>; the objects are shared with the map, so every change is seen by
  the later pairs and by the map.
\<close>

definition collideAt :: "int \<Rightarrow> nat \<Rightarrow> nat \<Rightarrow> entity list \<Rightarrow> entity list" where
  "collideAt t i j es =
     (case collidePair t (es ! i) (es ! j) of (a, b) \<Rightarrow> (es[i := a])[j := b])"

definition collideRow :: "int \<Rightarrow> nat \<Rightarrow> entity list \<Rightarrow> entity list" where
  "collideRow t i es = fold (collideAt t i) [Suc i ..< length es] es"

definition processCollisions :: "int \<Rightarrow> gameState \<Rightarrow> gameState" where
  "processCollisions t s =
     (let es = map snd (entities s);
          es1 = fold (collideRow t) [0 ..< length es] es
      in s\<lparr>entities := zip (map fst (entities s)) es1\<rparr>)"

subsection \<open>Culling, statistics, the delta\<close>

definition shouldRemove :: "int \<Rightarrow> entity \<Rightarrow> bool" where
  "shouldRemove t e =
     (\<not> isAlive e
      \<or> (etype e = ''fragment'' \<and>
           (case lifetime e of None \<Rightarrow> False
            | Some l \<Rightarrow> l \<noteq> 0 \<and> t - createdAt e > l))
      \<or> (etype e = ''player'' \<and> lastInputTime e \<noteq> 0 \<and> t - lastInputTime e > 120000))"

definition cleanupDeadEntities :: "int \<Rightarrow> gameState \<Rightarrow> gameState" where
  "cleanupDeadEntities t s =
     s\<lparr>entities := filter (\<lambda>(k, e). \<not> shouldRemove t e) (entities s)\<rparr>"

definition updateStats :: "gameState \<Rightarrow> gameState" where
  "updateStats s =
     s\<lparr>gstats := (gstats s)
         \<lparr>activePlayers := length (filter (\<lambda>(k, e). etype e = ''player'') (entities s)),
          pelletsCount := length (filter (\<lambda>(k, e). etype e = ''pellet'') (entities s))\<rparr>\<rparr>"

text \<open>\<open>Math.round\<close> rounds to the nearest integer, a half towards plus infinity.\<close>

definition Math_round :: "real \<Rightarrow> int" where
  "Math_round v = \<lfloor>v + 1 / 2\<rfloor>"

record deltaEntity =
  d_id :: string
  d_pos :: "int \<times> int"
  d_vel :: "int \<times> int"
  d_mass :: int
  d_radius :: int
  d_type :: string
  d_role :: string
  d_isAlive :: bool

record payload =
  kind :: string
  tick :: nat
  p_entities :: "deltaEntity list"
  serverTs :: int
  p_stats :: stats

definition deltaOf :: "entity \<Rightarrow> deltaEntity" where
  "deltaOf e =
     \<lparr>d_id = eid e,
      d_pos = (Math_round (x e), Math_round (y e)),
      d_vel = (Math_round (vx e), Math_round (vy e)),
      d_mass = Math_round (mass e),
      d_radius = Math_round (radius e),
      d_type = etype e,
      d_role = (case role e of None \<Rightarrow> ''basic'' | Some r \<Rightarrow> if r = [] then ''basic'' else r),
      d_isAlive = isAlive e\<rparr>"

definition generateDelta :: "int \<Rightarrow> gameState \<Rightarrow> payload" where
  "generateDelta t s =
     \<lparr>kind = ''delta'',
      tick = currentTick s,
      p_entities = map (\<lambda>(k, e). deltaOf e) (entities s),
      serverTs = t,
      p_stats = gstats s\<rparr>"

subsection \<open>The tick\<close>

text \<open>
  \<open>step\<close> returns the state after the tick and the delta it hands to the update
  callback. The callback the server registers is \<open>publishWorldUpdate\<close>, modelled by
  the list of payloads it sends on the channel, in order.
\<close>

definition step :: "env \<Rightarrow> gameState \<Rightarrow> gameState \<times> payload" where
  "step ev s =
     (let s1 = fst (processActionQueue ev s);
          s2 = integratePhysics s1;
          s3 = processCollisions (now ev) s2;
          s4 = cleanupDeadEntities (now ev) s3;
          s5 = updateStats s4;
          delta = generateDelta (now ev) s5
      in (s5\<lparr>currentTick := currentTick s5 + 1,
              gstats := (gstats s5)\<lparr>lastStepDuration := stepDuration ev\<rparr>\<rparr>,
          delta))"

definition publishWorldUpdate :: "payload \<Rightarrow> payload list" where
  "publishWorldUpdate deltaPayload =
     deltaPayload #
     (if tick deltaPayload mod 50 = 0 then [deltaPayload\<lparr>kind := ''snapshot''\<rparr>] else [])"

text \<open>
  A run of the loop started by \<open>startLoop\<close>: before each tick the actions that arrived
  since the last one are enqueued, then the timer fires \<open>step\<close> and the callback
  publishes. The result is everything sent on the channel, and the final state.
\<close>

definition enqueueAll :: "int \<Rightarrow> action list \<Rightarrow> gameState \<Rightarrow> gameState" where
  "enqueueAll t arrivals s = fold (\<lambda>a s'. fst (enqueueAction t a s')) arrivals s"

fun runLoop :: "(action list \<times> env) list \<Rightarrow> gameState \<Rightarrow> payload list \<times> gameState" where
  "runLoop [] s = ([], s)"
| "runLoop ((arrivals, ev) # ticks) s =
     (case step ev (enqueueAll (now ev) arrivals s) of
        (s1, delta) \<Rightarrow>
          (case runLoop ticks s1 of
             (sent, s2) \<Rightarrow> (publishWorldUpdate delta @ sent, s2)))"

subsection \<open>The radius invariant\<close>

text \<open>
  The data model's invariant on an entity: the mass is not negative and the stored
  radius is \<open>sqrt (mass / pi)\<close>; on a store: every entity in it satisfies this.
\<close>

definition radiusOk :: "entity \<Rightarrow> bool" where
  "radiusOk e = (0 \<le> mass e \<and> radius e = sqrt (mass e / pi))"

definition storeOk :: "(string \<times> entity) list \<Rightarrow> bool" where
  "storeOk store = list_all (\<lambda>(k, e). radiusOk e) store"

section \<open>Client: the spatial hash grid\<close>

record Entity =
  ident :: string
  position :: Vector2D
  velocity :: Vector2D
  cmass :: real
  cradius :: real
  ctype :: string

text \<open>
  A cell key is the string \<open>"cx,cy"\<close> of two integers; the model keeps the pair. A cell
  holds its coordinates and the set of ids registered in it.
\<close>

record SpatialCell =
  cx :: int
  cy :: int
  ids :: "string set"

record SpatialHashGrid =
  cellSize :: real
  grid :: "(int \<times> int) \<rightharpoonup> SpatialCell"
  entityCells :: "string \<rightharpoonup> (int \<times> int) list"

definition newGrid :: "real \<Rightarrow> SpatialHashGrid" where
  "newGrid cs = \<lparr>cellSize = cs, grid = Map.empty, entityCells = Map.empty\<rparr>"

definition getEntityCells :: "real \<Rightarrow> Entity \<Rightarrow> (int \<times> int) list" where
  "getEntityCells cs e =
     (let minX = x (position e) - cradius e;
          maxX = x (position e) + cradius e;
          minY = y (position e) - cradius e;
          maxY = y (position e) + cradius e;
          startCellX = \<lfloor>minX / cs\<rfloor>;
          endCellX = \<lfloor>maxX / cs\<rfloor>;
          startCellY = \<lfloor>minY / cs\<rfloor>;
          endCellY = \<lfloor>maxY / cs\<rfloor>
      in concat (map (\<lambda>a. map (\<lambda>b. (a, b)) [startCellY .. endCellY])
                     [startCellX .. endCellX]))"

definition addToCell ::
  "string \<Rightarrow> int \<times> int \<Rightarrow> ((int \<times> int) \<rightharpoonup> SpatialCell) \<Rightarrow> ((int \<times> int) \<rightharpoonup> SpatialCell)" where
  "addToCell i cellKey g =
     (case g cellKey of
        None \<Rightarrow> g(cellKey \<mapsto> \<lparr>cx = fst cellKey, cy = snd cellKey, ids = {i}\<rparr>)
      | Some cell \<Rightarrow> g(cellKey \<mapsto> cell\<lparr>ids := insert i (ids cell)\<rparr>))"

definition insert_grid :: "Entity \<Rightarrow> SpatialHashGrid \<Rightarrow> SpatialHashGrid" where
  "insert_grid e sg =
     (let cells = getEntityCells (cellSize sg) e
      in sg\<lparr>grid := fold (addToCell (ident e)) cells (grid sg),
            entityCells := (entityCells sg)(ident e \<mapsto> cells)\<rparr>)"

definition dropFromCell ::
  "string \<Rightarrow> int \<times> int \<Rightarrow> ((int \<times> int) \<rightharpoonup> SpatialCell) \<Rightarrow> ((int \<times> int) \<rightharpoonup> SpatialCell)" where
  "dropFromCell i cellKey g =
     (case g cellKey of
        None \<Rightarrow> g
      | Some cell \<Rightarrow>
          (if ids cell - {i} = {} then g(cellKey := None)
           else g(cellKey \<mapsto> cell\<lparr>ids := ids cell - {i}\<rparr>)))"

definition remove_grid :: "string \<Rightarrow> SpatialHashGrid \<Rightarrow> SpatialHashGrid" where
  "remove_grid i sg =
     (let oldCells = (case entityCells sg i of None \<Rightarrow> [] | Some cs \<Rightarrow> cs)
      in sg\<lparr>grid := fold (dropFromCell i) oldCells (grid sg),
            entityCells := (entityCells sg)(i := None)\<rparr>)"

definition update_grid :: "Entity \<Rightarrow> SpatialHashGrid \<Rightarrow> SpatialHashGrid" where
  "update_grid e sg = insert_grid e (remove_grid (ident e) sg)"

text \<open>\<open>query\<close> returns the elements of a \<open>Set\<close> as an array; the model returns the set.\<close>

definition query :: "SpatialHashGrid \<Rightarrow> Entity \<Rightarrow> string set" where
  "query sg e =
     fold (\<lambda>cellKey nearbyEntities.
             case grid sg cellKey of
               None \<Rightarrow> nearbyEntities
             | Some cell \<Rightarrow> nearbyEntities \<union> {i \<in> ids cell. i \<noteq> ident e})
          (getEntityCells (cellSize sg) e) {}"

definition clear_grid :: "SpatialHashGrid \<Rightarrow> SpatialHashGrid" where
  "clear_grid sg = sg\<lparr>grid := Map.empty, entityCells := Map.empty\<rparr>"

definition rebuild :: "Entity list \<Rightarrow> SpatialHashGrid \<Rightarrow> SpatialHashGrid" where
  "rebuild es sg = fold insert_grid es (clear_grid sg)"

text \<open>
  The grid is in sync with a list of entities when every entity is registered, under its
  id, in every cell that \<open>getEntityCells\<close> computes from its current position and
  radius. \<open>bruteForceOverlaps\<close> is the reference of the claim: the ids of all other
  entities whose circle overlaps the given one, found by testing every entity.
\<close>

definition registered :: "((int \<times> int) \<rightharpoonup> SpatialCell) \<Rightarrow> int \<times> int \<Rightarrow> string \<Rightarrow> bool" where
  "registered g c i = (case g c of None \<Rightarrow> False | Some cell \<Rightarrow> i \<in> ids cell)"

definition inSync :: "SpatialHashGrid \<Rightarrow> Entity list \<Rightarrow> bool" where
  "inSync sg es =
     list_all (\<lambda>e. list_all (\<lambda>c. registered (grid sg) c (ident e))
                            (getEntityCells (cellSize sg) e)) es"

section \<open>Client: the physics engine\<close>

record PhysicsEngine =
  pentities :: "string \<rightharpoonup> Entity"
  spatialGrid :: SpatialHashGrid

definition newPhysicsEngine :: PhysicsEngine where
  "newPhysicsEngine = \<lparr>pentities = Map.empty, spatialGrid = newGrid 150\<rparr>"

definition calculateRadius :: "real \<Rightarrow> real" where
  "calculateRadius m = sqrt (m / pi)"

definition calculateMass :: "real \<Rightarrow> real" where
  "calculateMass r = pi * r * r"

text \<open>
  \<open>calculateMaxVelocity\<close> has no guard on the mass. At mass 0 the source divides by
  \<open>Math.pow(0, 0.25) = 0\<close>, which gives \<open>Infinity\<close>, and \<open>Math.min(220, Infinity)\<close> is
  220; the model writes that case out, since division by zero is 0 in HOL. A negative
  mass gives NaN in the source and is outside the model.
\<close>

definition calculateMaxVelocity :: "real \<Rightarrow> real" where
  "calculateMaxVelocity m =
     (if m = 0 then 220
      else (let baseVelocity = 220 / (m powr (1/4)) in max 18 (min 220 baseVelocity)))"

definition createEntity_c ::
  "string \<Rightarrow> string \<Rightarrow> real \<Rightarrow> Vector2D \<Rightarrow> PhysicsEngine \<Rightarrow> PhysicsEngine" where
  "createEntity_c i ty m pos pe =
     (let e = \<lparr>ident = i, position = pos, velocity = \<lparr>x = 0, y = 0\<rparr>,
               cmass = m, cradius = calculateRadius m, ctype = ty\<rparr>
      in pe\<lparr>pentities := (pentities pe)(i \<mapsto> e),
            spatialGrid := insert_grid e (spatialGrid pe)\<rparr>)"

definition updateEntityMass :: "string \<Rightarrow> real \<Rightarrow> PhysicsEngine \<Rightarrow> PhysicsEngine" where
  "updateEntityMass entityId newMass pe =
     (case pentities pe entityId of
        None \<Rightarrow> pe
      | Some e \<Rightarrow>
          (let e1 = e\<lparr>cmass := newMass, cradius := calculateRadius newMass\<rparr>
           in pe\<lparr>pentities := (pentities pe)(entityId \<mapsto> e1),
                 spatialGrid := update_grid e1 (spatialGrid pe)\<rparr>))"

definition applyMovement :: "string \<Rightarrow> Vector2D \<Rightarrow> PhysicsEngine \<Rightarrow> PhysicsEngine" where
  "applyMovement entityId direction pe =
     (case pentities pe entityId of
        None \<Rightarrow> pe
      | Some e \<Rightarrow>
          (let maxVelocity = calculateMaxVelocity (cmass e);
               magnitude = sqrt (x direction * x direction + y direction * y direction);
               v = (if magnitude > 0
                    then \<lparr>x = (x direction / magnitude) * maxVelocity,
                          y = (y direction / magnitude) * maxVelocity\<rparr>
                    else \<lparr>x = 0, y = 0\<rparr>)
           in pe\<lparr>pentities := (pentities pe)(entityId \<mapsto> e\<lparr>velocity := v\<rparr>)\<rparr>))"

definition checkCollision_c :: "Entity \<Rightarrow> Entity \<Rightarrow> bool" where
  "checkCollision_c entity1 entity2 =
     (let dx = x (position entity1) - x (position entity2);
          dy = y (position entity1) - y (position entity2);
          dist = sqrt (dx * dx + dy * dy)
      in dist < cradius entity1 + cradius entity2)"

definition bruteForceOverlaps :: "Entity list \<Rightarrow> Entity \<Rightarrow> string list" where
  "bruteForceOverlaps es e =
     map ident (filter (\<lambda>other. ident other \<noteq> ident e \<and> checkCollision_c e other) es)"

definition processEatingCollision ::
  "string \<Rightarrow> string \<Rightarrow> PhysicsEngine \<Rightarrow> PhysicsEngine \<times> bool" where
  "processEatingCollision predatorId preyId pe =
     (case (pentities pe predatorId, pentities pe preyId) of
        (Some predator, Some prey) \<Rightarrow>
          (if cradius predator \<le> cradius prey then (pe, False)
           else if checkCollision_c predator prey then
             (let newMass = cmass predator + cmass prey;
                  pe1 = updateEntityMass predatorId newMass pe
              in (pe1\<lparr>pentities := (pentities pe1)(preyId := None)\<rparr>, True))
           else (pe, False))
      | _ \<Rightarrow> (pe, False))"

definition removeEntity :: "string \<Rightarrow> PhysicsEngine \<Rightarrow> PhysicsEngine" where
  "removeEntity i pe =
     pe\<lparr>spatialGrid := remove_grid i (spatialGrid pe),
        pentities := (pentities pe)(i := None)\<rparr>"

text \<open>The same invariant on the client's entities and on the engine's map.\<close>

definition radiusOk_c :: "Entity \<Rightarrow> bool" where
  "radiusOk_c e = (0 \<le> cmass e \<and> cradius e = sqrt (cmass e / pi))"

definition engineOk :: "PhysicsEngine \<Rightarrow> bool" where
  "engineOk pe = (\<forall>e \<in> ran (pentities pe). radiusOk_c e)"

section \<open>Client: the split and merge system\<close>

record SplitConfig =
  minMassToSplit :: real
  splitRatio :: real
  splitForce :: real
  splitCooldown :: int
  maxSplitParts :: int
  mergeTime :: int

record PlayerSplit =
  ps_id :: string
  parentId :: string
  ps_createdAt :: int
  canMerge :: bool

record SplitMergeSystem =
  physicsEngine :: PhysicsEngine
  config :: SplitConfig
  playerSplits :: "string \<rightharpoonup> PlayerSplit list"
  lastSplitTime :: "string \<rightharpoonup> int"

definition defaultSplitConfig :: SplitConfig where
  "defaultSplitConfig =
     \<lparr>minMassToSplit = 35, splitRatio = 1 / 2, splitForce = 300,
      splitCooldown = 1000, maxSplitParts = 16, mergeTime = 30000\<rparr>"

definition newSplitMergeSystem :: "PhysicsEngine \<Rightarrow> SplitMergeSystem" where
  "newSplitMergeSystem pe =
     \<lparr>physicsEngine = pe, config = defaultSplitConfig,
      playerSplits = Map.empty, lastSplitTime = Map.empty\<rparr>"

text \<open>
  Every function that reads the clock is given the reading \<open>t\<close> of \<open>Date.now()\<close>, one
  reading for the whole call.
\<close>

definition canPlayerSplit :: "int \<Rightarrow> SplitMergeSystem \<Rightarrow> string \<Rightarrow> bool" where
  "canPlayerSplit t sys pid =
     (case pentities (physicsEngine sys) pid of
        None \<Rightarrow> False
      | Some player \<Rightarrow>
          (if cmass player < minMassToSplit (config sys) then False
           else
             (let lastSplit = (case lastSplitTime sys pid of None \<Rightarrow> 0 | Some l \<Rightarrow> l)
              in if t - lastSplit < splitCooldown (config sys) then False
                 else
                   (let splits = (case playerSplits sys pid of None \<Rightarrow> [] | Some l \<Rightarrow> l)
                    in if int (length splits) \<ge> maxSplitParts (config sys) - 1 then False
                       else True))))"

text \<open>The decimal digits of a clock reading, as the template string prints them.\<close>

fun digits :: "nat \<Rightarrow> string" where
  "digits n =
     (if n < 10 then [''0123456789'' ! n]
      else digits (n div 10) @ [''0123456789'' ! (n mod 10)])"

definition splitCellId :: "string \<Rightarrow> int \<Rightarrow> string" where
  "splitCellId pid t = pid @ ''_split_'' @ digits (nat t)"

text \<open>
  \<open>performSplit\<close>: \<open>player\<close> is the object in the engine's map, so its radius is read
  after \<open>updateEntityMass\<close> has changed it, while its mass was read before. An absent
  direction is \<open>{x: 0, y: -1}\<close>. The source normalises the direction object in place;
  over the reals, normalising it again in a later call changes nothing.
\<close>

definition performSplit ::
  "int \<Rightarrow> string \<Rightarrow> Vector2D option \<Rightarrow> SplitMergeSystem \<Rightarrow> SplitMergeSystem \<times> bool" where
  "performSplit t pid direction sys =
     (if \<not> canPlayerSplit t sys pid then (sys, False)
      else
        (case pentities (physicsEngine sys) pid of
           None \<Rightarrow> (sys, False)
         | Some player \<Rightarrow>
             (let d0 = (case direction of None \<Rightarrow> \<lparr>x = 0, y = -1\<rparr> | Some d \<Rightarrow> d);
                  magnitude = sqrt ((x d0)\<^sup>2 + (y d0)\<^sup>2);
                  splitDirection =
                    (if magnitude > 0 then \<lparr>x = x d0 / magnitude, y = y d0 / magnitude\<rparr>
                     else d0);
                  newCellMass = cmass player * splitRatio (config sys);
                  remainingMass = cmass player - newCellMass;
                  pe1 = updateEntityMass pid remainingMass (physicsEngine sys);
                  r1 = (case pentities pe1 pid of None \<Rightarrow> cradius player
                        | Some p1 \<Rightarrow> cradius p1);
                  newCellId = splitCellId pid t;
                  newCellPosition =
                    \<lparr>x = x (position player) + x splitDirection * (r1 + 10),
                     y = y (position player) + y splitDirection * (r1 + 10)\<rparr>;
                  pe2 = createEntity_c newCellId (ctype player) newCellMass newCellPosition pe1;
                  pe3 = applyMovement newCellId
                          \<lparr>x = x splitDirection * splitForce (config sys),
                           y = y splitDirection * splitForce (config sys)\<rparr> pe2;
                  pe4 = applyMovement pid
                          \<lparr>x = - x splitDirection * (splitForce (config sys) * (3 / 10)),
                           y = - y splitDirection * (splitForce (config sys) * (3 / 10))\<rparr> pe3;
                  splits = (case playerSplits sys pid of None \<Rightarrow> [] | Some l \<Rightarrow> l)
              in (sys\<lparr>physicsEngine := pe4,
                      playerSplits := (playerSplits sys)(pid \<mapsto> splits @
                         [\<lparr>ps_id = newCellId, parentId = pid, ps_createdAt = t,
                           canMerge = False\<rparr>]),
                      lastSplitTime := (lastSplitTime sys)(pid \<mapsto> t)\<rparr>,
                  True))))"

definition getPlayerCells :: "SplitMergeSystem \<Rightarrow> string \<Rightarrow> Entity list" where
  "getPlayerCells sys pid =
     (case pentities (physicsEngine sys) pid of None \<Rightarrow> [] | Some mainCell \<Rightarrow> [mainCell])
     @ concat (map (\<lambda>split. case pentities (physicsEngine sys) (ps_id split) of
                               None \<Rightarrow> [] | Some splitCell \<Rightarrow> [splitCell])
                   (case playerSplits sys pid of None \<Rightarrow> [] | Some l \<Rightarrow> l))"

text \<open>
  \<open>handleSplitInput\<close> collects the player's cells first and then asks each cell, by the
  cell's own id, whether it can split.
\<close>

definition handleSplitInput ::
  "int \<Rightarrow> string \<Rightarrow> Vector2D option \<Rightarrow> SplitMergeSystem \<Rightarrow> SplitMergeSystem" where
  "handleSplitInput t pid direction sys =
     fold (\<lambda>cell sys'.
             if canPlayerSplit t sys' (ident cell)
             then fst (performSplit t (ident cell) direction sys')
             else sys')
          (getPlayerCells sys pid) sys"

fun removeFirst :: "('a \<Rightarrow> bool) \<Rightarrow> 'a list \<Rightarrow> 'a list" where
  "removeFirst P [] = []"
| "removeFirst P (a # as) = (if P a then as else a # removeFirst P as)"

definition removePlayerSplit :: "string \<Rightarrow> string \<Rightarrow> SplitMergeSystem \<Rightarrow> SplitMergeSystem" where
  "removePlayerSplit pid splitId sys =
     (let splits = (case playerSplits sys pid of None \<Rightarrow> [] | Some l \<Rightarrow> l)
      in if list_ex (\<lambda>s. ps_id s = splitId) splits
         then sys\<lparr>playerSplits := (playerSplits sys)
                (pid \<mapsto> removeFirst (\<lambda>s. ps_id s = splitId) splits)\<rparr>
         else sys)"

text \<open>
  \<open>mergeCells\<close>: the parent's position is assigned on the object after
  \<open>updateEntityMass\<close>, without telling the grid.
\<close>

definition mergeCells :: "string \<Rightarrow> string \<Rightarrow> SplitMergeSystem \<Rightarrow> SplitMergeSystem" where
  "mergeCells pid splitId sys =
     (case (pentities (physicsEngine sys) pid, pentities (physicsEngine sys) splitId) of
        (Some parent, Some split) \<Rightarrow>
          (let totalMass = cmass parent + cmass split;
               newPosition =
                 \<lparr>x = (x (position parent) * cmass parent + x (position split) * cmass split)
                        / totalMass,
                  y = (y (position parent) * cmass parent + y (position split) * cmass split)
                        / totalMass\<rparr>;
               pe1 = updateEntityMass pid totalMass (physicsEngine sys);
               pe2 = pe1\<lparr>pentities := (case pentities pe1 pid of
                                           None \<Rightarrow> pentities pe1
                                         | Some p1 \<Rightarrow> (pentities pe1)
                                             (pid \<mapsto> p1\<lparr>position := newPosition\<rparr>))\<rparr>;
               pe3 = removeEntity splitId pe2
           in removePlayerSplit pid splitId (sys\<lparr>physicsEngine := pe3\<rparr>))
      | _ \<Rightarrow> sys)"

definition attemptMerge :: "string \<Rightarrow> string \<Rightarrow> SplitMergeSystem \<Rightarrow> SplitMergeSystem" where
  "attemptMerge pid splitId sys =
     (case (pentities (physicsEngine sys) pid, pentities (physicsEngine sys) splitId) of
        (Some parent, Some split) \<Rightarrow>
          (let dist = sqrt ((x (position parent) - x (position split))\<^sup>2
                          + (y (position parent) - y (position split))\<^sup>2);
               mergeDistance = (cradius parent + cradius split) * (8 / 10)
           in if dist < mergeDistance then mergeCells pid splitId sys else sys)
      | _ \<Rightarrow> removePlayerSplit pid splitId sys)"

section \<open>Scenarios\<close>

text \<open>Concrete states on which the theorems below are run.\<close>

definition bigPlayer :: entity where
  "bigPlayer = createEntity 0 ''u1'' (emptyConfig\<lparr>c_id := Some ''a'', c_mass := Some 200\<rparr>)"

definition smallPlayer :: entity where
  "smallPlayer = createEntity 0 ''u2'' (emptyConfig\<lparr>c_id := Some ''b'', c_mass := Some 150\<rparr>)"

definition clientPair :: PhysicsEngine where
  "clientPair =
     createEntity_c ''b'' ''pellet'' 100 \<lparr>x = 0, y = 0\<rparr>
       (createEntity_c ''a'' ''player'' 105 \<lparr>x = 0, y = 0\<rparr> newPhysicsEngine)"

definition arena :: WorldBounds where
  "arena = \<lparr>width = 2000, height = 2000\<rparr>"

definition wallRunner :: entity where
  "wallRunner =
     createEntity 0 ''u'' (emptyConfig\<lparr>c_id := Some ''p'', c_x := Some 1995,
       c_y := Some 1000, c_vx := Some 100, c_mass := Some 100\<rparr>)"

definition emptyGame :: gameState where
  "emptyGame =
     \<lparr>roomId = ''default'', tickHz = 10, worldBounds = arena, entities = [],
      actionQueue = [], isRunning = False, currentTick = 0, deltaTime = 1 / 10,
      gstats = \<lparr>totalPlayers = 0, activePlayers = 0, pelletsCount = 0,
                actionsProcessed = 0, lastStepDuration = 0\<rparr>\<rparr>"

definition abilityOf :: "string \<Rightarrow> action" where
  "abilityOf pid =
     \<lparr>atype = ''ability'', playerId = pid, ts = 0, data = None,
      serverTimestamp = None, targetTick = None\<rparr>"

text \<open>An environment in which the second action of a tick crosses the 50 ms budget.\<close>

definition slowEnv :: env where
  "slowEnv =
     \<lparr>now = 1000, elapsed = (\<lambda>k. if 2 \<le> k then 60 else 10),
      randomPosition = (\<lambda>_. \<lparr>x = 500, y = 500\<rparr>), randomColor = (\<lambda>_. ''#ffffff''),
      uuidv4 = (\<lambda>_. ''f1''), stepDuration = 1\<rparr>"

definition queuedState :: gameState where
  "queuedState = emptyGame\<lparr>actionQueue := [abilityOf ''p1'', abilityOf ''p2'', abilityOf ''p3'']\<rparr>"

definition driftingPlayer :: entity where
  "driftingPlayer =
     createEntity 0 ''u'' (emptyConfig\<lparr>c_id := Some ''d'', c_x := Some (104 / 10),
       c_y := Some (15 / 2), c_vx := Some (- 5 / 2), c_vy := Some (1 / 4),
       c_mass := Some (1001 / 10)\<rparr>)"

definition driftGame :: gameState where
  "driftGame = emptyGame\<lparr>entities := [(''d'', driftingPlayer)]\<rparr>"

definition cellNear :: "string \<Rightarrow> real \<Rightarrow> real \<Rightarrow> real \<Rightarrow> Entity" where
  "cellNear i px py r =
     \<lparr>ident = i, position = \<lparr>x = px, y = py\<rparr>, velocity = \<lparr>x = 0, y = 0\<rparr>,
      cmass = calculateMass r, cradius = r, ctype = ''player''\<rparr>"

definition gridCrowd :: "Entity list" where
  "gridCrowd = [cellNear ''a'' 100 100 60, cellNear ''b'' 200 100 60, cellNear ''c'' 1000 1000 10]"

definition soloSystem :: SplitMergeSystem where
  "soloSystem =
     newSplitMergeSystem
       (createEntity_c ''player'' ''player'' 80 \<lparr>x = 1000, y = 1000\<rparr> newPhysicsEngine)"


definition soloGame :: gameState where
  "soloGame =
     emptyGame\<lparr>entities :=
       [(''p'', createEntity 0 ''u'' (emptyConfig\<lparr>c_id := Some ''p'', c_mass := Some 80\<rparr>))]\<rparr>"

definition splitOf :: "string \<Rightarrow> action" where
  "splitOf pid =
     \<lparr>atype = ''split'', playerId = pid, ts = 0, data = None,
      serverTimestamp = None, targetTick = None\<rparr>"

section \<open>Auxiliary facts\<close>

lemma orDefault_simps [simp]: "orDefault (Some a) d = a" "orDefault None d = d"
  by (simp_all add: orDefault_def)

lemma emptyConfig_sel [simp]:
  "c_id emptyConfig = None" "c_type emptyConfig = None" "c_x emptyConfig = None"
  "c_y emptyConfig = None" "c_vx emptyConfig = None" "c_vy emptyConfig = None"
  "c_mass emptyConfig = None" "c_ownerId emptyConfig = None" "c_lifetime emptyConfig = None"
  "c_role emptyConfig = None" "c_color emptyConfig = None" "c_name emptyConfig = None"
  by (simp_all add: emptyConfig_def)

lemma createEntity_sel [simp]:
  "x (createEntity t u c) = orDefault (c_x c) 0"
  "y (createEntity t u c) = orDefault (c_y c) 0"
  "eid (createEntity t u c) = orDefault (c_id c) u"
  "etype (createEntity t u c) = orDefault (c_type c) ''player''"
  "vx (createEntity t u c) = orDefault (c_vx c) 0"
  "vy (createEntity t u c) = orDefault (c_vy c) 0"
  "mass (createEntity t u c) = orDefault (c_mass c) INITIAL_PLAYER_MASS"
  "radius (createEntity t u c) = radiusFromMass (orDefault (c_mass c) INITIAL_PLAYER_MASS)"
  "isAlive (createEntity t u c) = True"
  "createdAt (createEntity t u c) = t"
  "lastInputTime (createEntity t u c) = t"
  "killedBy (createEntity t u c) = None"
  "deathTime (createEntity t u c) = None"
  "ownerId (createEntity t u c) = c_ownerId c"
  "lifetime (createEntity t u c) = c_lifetime c"
  "role (createEntity t u c) = c_role c"
  by (simp_all add: createEntity_def Let_def)

lemma radiusFromMass_pos: "0 < m \<Longrightarrow> 0 < radiusFromMass m"
  by (simp add: radiusFromMass_def)

lemma radiusFromMass_eq: "0 < m \<Longrightarrow> radiusFromMass m = sqrt (m / pi)"
  by (simp add: radiusFromMass_def)

lemma calculateRadius_less: "0 \<le> a \<Longrightarrow> a < b \<Longrightarrow> calculateRadius a < calculateRadius b"
  by (simp add: calculateRadius_def divide_strict_right_mono)

lemma calculateRadius_pos: "0 < a \<Longrightarrow> 0 < calculateRadius a"
  by (simp add: calculateRadius_def)

lemma eat_fst [simp]:
  "fst (eat t p q) = p\<lparr>mass := mass p + mass q, radius := radiusFromMass (mass p + mass q)\<rparr>"
  by (simp add: eat_def calculateNewMass_def Let_def)

lemma eat_snd [simp]:
  "snd (eat t p q) = q\<lparr>isAlive := False, killedBy := Some (eid p), deathTime := Some t\<rparr>"
  by (simp add: eat_def Let_def)

lemma bigPlayer_overlaps_smallPlayer: "checkCollision bigPlayer smallPlayer"
  by (simp add: checkCollision_def bigPlayer_def smallPlayer_def Let_def
      radiusFromMass_pos add_pos_pos)

lemma bigPlayer_canEat_smallPlayer: "canEat bigPlayer smallPlayer"
  by (simp add: canEat_def bigPlayer_def smallPlayer_def)

subsection \<open>The client's engine, entity by entity\<close>

lemma pentities_createEntity_c [simp]:
  "pentities (createEntity_c i ty m pos pe) =
     (pentities pe)(i \<mapsto> \<lparr>ident = i, position = pos, velocity = \<lparr>x = 0, y = 0\<rparr>,
        cmass = m, cradius = calculateRadius m, ctype = ty\<rparr>)"
  by (simp add: createEntity_c_def Let_def)

lemma pentities_updateEntityMass [simp]:
  "pentities (updateEntityMass i m pe) =
     (case pentities pe i of None \<Rightarrow> pentities pe
      | Some e \<Rightarrow> (pentities pe)(i \<mapsto> e\<lparr>cmass := m, cradius := calculateRadius m\<rparr>))"
  by (simp add: updateEntityMass_def Let_def split: option.splits)

lemma pentities_removeEntity [simp]:
  "pentities (removeEntity i pe) = (pentities pe)(i := None)"
  by (simp add: removeEntity_def)

section \<open>The eating rule\<close>

lemma server_consumes_only_by_rule:
  "(isAlive B \<and> \<not> isAlive (snd (collidePair t A B)) \<longrightarrow>
      mass A > mass B * (11 / 10)
    \<and> sqrt ((x B - x A) * (x B - x A) + (y B - y A) * (y B - y A)) < radius A + radius B)
 \<and> (isAlive A \<and> \<not> isAlive (fst (collidePair t A B)) \<longrightarrow>
      mass B > mass A * (11 / 10)
    \<and> sqrt ((x B - x A) * (x B - x A) + (y B - y A) * (y B - y A)) < radius A + radius B)
 \<and> (mass A \<le> mass B * (11 / 10) \<longrightarrow>
      isAlive (snd (collidePair t A B)) = isAlive B
    \<and> killedBy (snd (collidePair t A B)) = killedBy B
    \<and> mass (fst (collidePair t A B)) = mass A)
 \<and> (mass B \<le> mass A * (11 / 10) \<longrightarrow>
      isAlive (fst (collidePair t A B)) = isAlive A
    \<and> killedBy (fst (collidePair t A B)) = killedBy A
    \<and> mass (snd (collidePair t A B)) = mass B)"
  by (auto simp add: collidePair_def handleCollision_def split_beta canEat_def
      checkCollision_def Let_def split: if_splits)

lemma client_consumes_only_if_larger:
  "snd (processEatingCollision predatorId preyId pe) \<longrightarrow>
     (\<exists>predator prey.
        pentities pe predatorId = Some predator \<and> pentities pe preyId = Some prey
      \<and> cradius predator > cradius prey
      \<and> sqrt ((x (position predator) - x (position prey))
                * (x (position predator) - x (position prey))
              + (y (position predator) - y (position prey))
                * (y (position predator) - y (position prey)))
          < cradius predator + cradius prey)"
  by (auto simp add: processEatingCollision_def checkCollision_c_def Let_def
      split: option.splits if_splits)

lemma client_no_eat_no_change:
  "\<not> snd (processEatingCollision predatorId preyId pe) \<Longrightarrow>
     fst (processEatingCollision predatorId preyId pe) = pe"
  by (auto simp add: processEatingCollision_def Let_def split: option.splits if_splits)

lemma clientPair_eaten:
  "snd (processEatingCollision ''a'' ''b'' clientPair)
   \<and> pentities (fst (processEatingCollision ''a'' ''b'' clientPair)) ''b'' = None
   \<and> map_option cmass (pentities (fst (processEatingCollision ''a'' ''b'' clientPair)) ''a'')
       = Some 205
   \<and> map_option cmass (pentities clientPair ''a'') = Some 105
   \<and> map_option cmass (pentities clientPair ''b'') = Some 100"
proof -
  have "calculateRadius 100 < calculateRadius 105"
    by (rule calculateRadius_less) simp_all
  moreover have "0 < calculateRadius 105 + calculateRadius 100"
    by (simp add: calculateRadius_pos add_pos_pos)
  ultimately show ?thesis
    by (simp add: processEatingCollision_def clientPair_def checkCollision_c_def Let_def)
qed

text \<open>
  Claim C1, as the claim states it for the client: there the predator of mass 105 eats
  the prey of mass 100 lying on the same point, although 105 is not above 100 times
  1.1. The claim fails on \<open>processEatingCollision\<close>.
\<close>

theorem client_eats_without_margin:
  "snd (processEatingCollision ''a'' ''b'' clientPair)
   \<and> pentities (fst (processEatingCollision ''a'' ''b'' clientPair)) ''b'' = None
   \<and> map_option cmass (pentities clientPair ''a'') = Some 105
   \<and> map_option cmass (pentities clientPair ''b'') = Some 100
   \<and> \<not> ((105::real) > 100 * (11 / 10))"
  using clientPair_eaten by simp

text \<open>
  Claim C1, amended. On the server, one pass of the collision loop over a pair lets A
  consume B (B alive before, dead after) only if \<open>A.mass > B.mass * 1.1\<close> and the centres
  are closer than the sum of the radii, and likewise for B consuming A; an entity whose
  mass is at most 1.1 times the other's never kills the other and gains no mass from
  it. On the client, \<open>processEatingCollision\<close> lets the predator consume the prey only
  if both exist, the predator's radius is larger than the prey's and the circles
  overlap, and otherwise changes nothing: its guard compares the radii and has no
  10 percent margin.
\<close>

theorem consume_only_under_eating_rule:
  "(isAlive B \<and> \<not> isAlive (snd (collidePair t A B)) \<longrightarrow>
      mass A > mass B * (11 / 10)
    \<and> sqrt ((x B - x A) * (x B - x A) + (y B - y A) * (y B - y A)) < radius A + radius B)
 \<and> (isAlive A \<and> \<not> isAlive (fst (collidePair t A B)) \<longrightarrow>
      mass B > mass A * (11 / 10)
    \<and> sqrt ((x B - x A) * (x B - x A) + (y B - y A) * (y B - y A)) < radius A + radius B)
 \<and> (mass A \<le> mass B * (11 / 10) \<longrightarrow>
      isAlive (snd (collidePair t A B)) = isAlive B
    \<and> killedBy (snd (collidePair t A B)) = killedBy B
    \<and> mass (fst (collidePair t A B)) = mass A)
 \<and> (mass B \<le> mass A * (11 / 10) \<longrightarrow>
      isAlive (fst (collidePair t A B)) = isAlive A
    \<and> killedBy (fst (collidePair t A B)) = killedBy A
    \<and> mass (snd (collidePair t A B)) = mass B)
 \<and> (snd (processEatingCollision predatorId preyId pe) \<longrightarrow>
     (\<exists>predator prey.
        pentities pe predatorId = Some predator \<and> pentities pe preyId = Some prey
      \<and> cradius predator > cradius prey
      \<and> sqrt ((x (position predator) - x (position prey))
                * (x (position predator) - x (position prey))
              + (y (position predator) - y (position prey))
                * (y (position predator) - y (position prey)))
          < cradius predator + cradius prey))
 \<and> (\<not> snd (processEatingCollision predatorId preyId pe) \<longrightarrow>
      fst (processEatingCollision predatorId preyId pe) = pe)"
  using server_consumes_only_by_rule [of B t A]
    client_consumes_only_if_larger [of predatorId preyId pe]
    client_no_eat_no_change [of predatorId preyId pe]
  by blast

theorem consume_only_under_eating_rule_witness:
  "isAlive smallPlayer \<and> \<not> isAlive (snd (collidePair 0 bigPlayer smallPlayer))
   \<and> mass bigPlayer > mass smallPlayer * (11 / 10)
   \<and> mass smallPlayer \<le> mass bigPlayer * (11 / 10)
   \<and> isAlive (fst (collidePair 0 bigPlayer smallPlayer)) = isAlive bigPlayer
   \<and> snd (processEatingCollision ''a'' ''b'' clientPair)
   \<and> (\<exists>predator prey.
        pentities clientPair ''a'' = Some predator \<and> pentities clientPair ''b'' = Some prey
      \<and> cradius predator > cradius prey)"
proof -
  have alive: "isAlive smallPlayer"
    by (simp add: smallPlayer_def)
  have dead: "\<not> isAlive (snd (collidePair 0 bigPlayer smallPlayer))"
    using bigPlayer_overlaps_smallPlayer bigPlayer_canEat_smallPlayer
    by (simp add: collidePair_def handleCollision_def)
  have le: "mass smallPlayer \<le> mass bigPlayer * (11 / 10)"
    by (simp add: smallPlayer_def bigPlayer_def)
  have eaten: "snd (processEatingCollision ''a'' ''b'' clientPair)"
    using clientPair_eaten by simp
  from consume_only_under_eating_rule [of smallPlayer 0 bigPlayer "''a''" "''b''" clientPair]
    alive dead le eaten
  show ?thesis
    by blast
qed

section \<open>Eating transfers the whole mass\<close>

text \<open>
  Claim C7. When two overlapping entities meet in the collision loop and one may eat
  the other, the predator's mass afterwards is its mass before plus the prey's whole
  mass before (efficiency 1.0), and the prey is not alive, with \<open>killedBy\<close> the
  predator's id and \<open>deathTime\<close> the clock reading.
\<close>

theorem eating_conserves_mass:
  "(checkCollision A B \<and> canEat A B \<longrightarrow>
      mass (fst (collidePair t A B)) = mass A + mass B
    \<and> radius (fst (collidePair t A B)) = radiusFromMass (mass A + mass B)
    \<and> \<not> isAlive (snd (collidePair t A B))
    \<and> killedBy (snd (collidePair t A B)) = Some (eid A)
    \<and> deathTime (snd (collidePair t A B)) = Some t)
 \<and> (checkCollision A B \<and> \<not> canEat A B \<and> canEat B A \<longrightarrow>
      mass (snd (collidePair t A B)) = mass B + mass A
    \<and> radius (snd (collidePair t A B)) = radiusFromMass (mass B + mass A)
    \<and> \<not> isAlive (fst (collidePair t A B))
    \<and> killedBy (fst (collidePair t A B)) = Some (eid B)
    \<and> deathTime (fst (collidePair t A B)) = Some t)
 \<and> calculateNewMass p q = p + q"
  by (simp add: collidePair_def handleCollision_def split_beta calculateNewMass_def)

theorem eating_conserves_mass_witness:
  "checkCollision bigPlayer smallPlayer \<and> canEat bigPlayer smallPlayer
   \<and> mass bigPlayer = 200 \<and> mass smallPlayer = 150
   \<and> mass (fst (collidePair 7 bigPlayer smallPlayer)) = 350
   \<and> \<not> isAlive (snd (collidePair 7 bigPlayer smallPlayer))
   \<and> killedBy (snd (collidePair 7 bigPlayer smallPlayer)) = Some ''a''
   \<and> deathTime (snd (collidePair 7 bigPlayer smallPlayer)) = Some 7
   \<and> checkCollision smallPlayer bigPlayer \<and> \<not> canEat smallPlayer bigPlayer
   \<and> mass (snd (collidePair 7 smallPlayer bigPlayer)) = 350
   \<and> \<not> isAlive (fst (collidePair 7 smallPlayer bigPlayer))"
proof -
  have m: "mass bigPlayer = 200" "mass smallPlayer = 150" "eid bigPlayer = ''a''"
    by (simp_all add: bigPlayer_def smallPlayer_def)
  have c2: "checkCollision smallPlayer bigPlayer"
    by (simp add: checkCollision_def bigPlayer_def smallPlayer_def Let_def
        radiusFromMass_pos add_pos_pos)
  have n2: "\<not> canEat smallPlayer bigPlayer"
    by (simp add: canEat_def m)
  from eating_conserves_mass [of bigPlayer smallPlayer 7]
    eating_conserves_mass [of smallPlayer bigPlayer 7]
    bigPlayer_overlaps_smallPlayer bigPlayer_canEat_smallPlayer c2 n2 m
  show ?thesis
    by simp
qed

section \<open>The speed limit\<close>

lemma base_speed_antimono:
  fixes m1 m2 :: real
  assumes "0 < m1" "m1 \<le> m2"
  shows "220 / (m2 powr (1/4)) \<le> 220 / (m1 powr (1/4))"
proof -
  have "m1 powr (1/4) \<le> m2 powr (1/4)"
    using assms by (intro powr_mono2) simp_all
  moreover have "0 < m1 powr (1/4)"
    using assms by simp
  ultimately show ?thesis
    by (simp add: frac_le)
qed

text \<open>
  Claim C9. For all masses \<open>0 < m1 \<le> m2\<close> the maximum speed at \<open>m2\<close> is at most the one
  at \<open>m1\<close>, every maximum speed lies in \<open>[18, 220]\<close>, and the speed is
  \<open>clamp (220 / m^0.25, 18, 220)\<close>, for the server's \<open>vMaxFromMass\<close> and the client's
  \<open>calculateMaxVelocity\<close> alike.
\<close>

theorem vMax_monotone_bounded:
  assumes "0 < m1" and "m1 \<le> m2"
  shows "vMaxFromMass m2 \<le> vMaxFromMass m1
       \<and> calculateMaxVelocity m2 \<le> calculateMaxVelocity m1
       \<and> 18 \<le> vMaxFromMass m1 \<and> vMaxFromMass m1 \<le> 220
       \<and> 18 \<le> calculateMaxVelocity m1 \<and> calculateMaxVelocity m1 \<le> 220
       \<and> vMaxFromMass m1 = max 18 (min 220 (220 / (m1 powr (1/4))))
       \<and> calculateMaxVelocity m1 = max 18 (min 220 (220 / (m1 powr (1/4))))"
proof -
  have le: "220 / (m2 powr (1/4)) \<le> 220 / (m1 powr (1/4))"
    using assms by (rule base_speed_antimono)
  have pos2: "0 < m2" using assms by simp
  show ?thesis
    using le assms(1) pos2
    by (simp add: vMaxFromMass_def calculateMaxVelocity_def Let_def max_def min_def)
qed

theorem vMax_monotone_bounded_witness:
  "(0::real) < 16 \<and> (16::real) \<le> 81
   \<and> vMaxFromMass 81 \<le> vMaxFromMass 16
   \<and> 18 \<le> vMaxFromMass 16 \<and> vMaxFromMass 16 \<le> 220
   \<and> calculateMaxVelocity 81 \<le> calculateMaxVelocity 16"
  using vMax_monotone_bounded [of 16 81] by simp

section \<open>The wall\<close>

lemma integrateEntity_velocity:
  "vx (integrateEntity dt b e) = vx e * (98 / 100)
   \<and> vy (integrateEntity dt b e) = vy e * (98 / 100)"
  by (simp add: integrateEntity_def Let_def applyDamping_def)

lemma integrateEntity_position:
  "x (integrateEntity dt b e) = max (radius e) (min (width b - radius e) (x e + vx e * dt))
   \<and> y (integrateEntity dt b e) = max (radius e) (min (height b - radius e) (y e + vy e * dt))"
  by (simp add: integrateEntity_def Let_def clampToWorld_def integratePosition_def)

lemma radius100_bounds: "0 < radiusFromMass 100 \<and> radiusFromMass 100 \<le> 10"
proof -
  have "(100::real) / pi \<le> 100 / 1"
    using pi_ge_two by (intro divide_left_mono) simp_all
  then have "sqrt (100 / pi) \<le> sqrt 100"
    by (intro real_sqrt_le_mono) simp
  also have "sqrt 100 = (10::real)"
    using real_sqrt_abs [of 10] by simp
  finally show ?thesis
    by (simp add: radiusFromMass_def)
qed

text \<open>
  Claim C2, on the code. A player of mass 100 at \<open>x = 1995\<close> moving right at 100 units
  per second in the 2000 by 2000 world: Euler integration puts it at 2005, clamping
  brings it back to \<open>2000 - radius\<close>, so the clamp altered the position; yet the
  velocity after the step is 98, the damped value, and not the halved 49. The test
  compares the clamped position with the entity's position after the clamped position
  has been assigned to it, so it never holds.
\<close>

theorem wall_clamp_keeps_velocity:
  "x (integratePosition wallRunner (1 / 10)) = 2005
   \<and> x (integrateEntity (1 / 10) arena wallRunner) = 2000 - radiusFromMass 100
   \<and> x (integrateEntity (1 / 10) arena wallRunner) < 2005
   \<and> vx (integrateEntity (1 / 10) arena wallRunner) = 98
   \<and> vx wallRunner * (98 / 100) * (1 / 2) = 49"
proof -
  have v: "vx wallRunner = 100" and r: "radius wallRunner = radiusFromMass 100"
    and p: "x wallRunner = 1995"
    by (simp_all add: wallRunner_def)
  have a: "x (integratePosition wallRunner (1 / 10)) = 2005"
    by (simp add: integratePosition_def v p)
  have b: "x (integrateEntity (1 / 10) arena wallRunner) = 2000 - radiusFromMass 100"
    using radius100_bounds integrateEntity_position [of "1 / 10" arena wallRunner]
    by (simp add: v r p arena_def max_def min_def)
  have c: "vx (integrateEntity (1 / 10) arena wallRunner) = 98"
    using integrateEntity_velocity [of "1 / 10" arena wallRunner] by (simp add: v)
  from a b c radius100_bounds v show ?thesis
    by simp
qed

theorem wall_clamp_keeps_velocity_witness:
  "vx (integrateEntity (1 / 10) arena wallRunner) = 98
   \<and> x (integrateEntity (1 / 10) arena wallRunner) < x (integratePosition wallRunner (1 / 10))"
  using wall_clamp_keeps_velocity by simp

section \<open>The action queue\<close>

lemma drainLoop_spec:
  "drainLoop ev n q s = (q', n', w, s') \<Longrightarrow>
   \<exists>k\<le>length q. q' = drop k q \<and> n' = n + k
      \<and> s' = foldl (\<lambda>st a. processAction ev a st) s (take k q)
      \<and> (w \<longleftrightarrow> 0 < k \<and> elapsed ev (n + k) > 50)
      \<and> (\<not> w \<longrightarrow> k = length q)
      \<and> (\<forall>j. 0 < j \<and> j < k \<longrightarrow> elapsed ev (n + j) \<le> 50)"
proof (induction q arbitrary: n s)
  case Nil
  then show ?case by simp
next
  case (Cons a q)
  show ?case
  proof (cases "elapsed ev (n + 1) > 50")
    case True
    with Cons.prems have "q' = q" "n' = n + 1" "w" "s' = processAction ev a s"
      by (simp_all add: Let_def)
    with True show ?thesis
      by (intro exI [of _ 1]) simp
  next
    case False
    with Cons.prems have "drainLoop ev (n + 1) q (processAction ev a s) = (q', n', w, s')"
      by (simp add: Let_def)
    from Cons.IH [OF this] obtain k where kk: "k \<le> length q \<and> q' = drop k q \<and> n' = n + 1 + k
      \<and> s' = foldl (\<lambda>st a. processAction ev a st) (processAction ev a s) (take k q)
      \<and> (w \<longleftrightarrow> 0 < k \<and> elapsed ev (n + 1 + k) > 50) \<and> (\<not> w \<longrightarrow> k = length q)
      \<and> (\<forall>j. 0 < j \<and> j < k \<longrightarrow> elapsed ev (n + 1 + j) \<le> 50)"
      by blast
    then have k1: "k \<le> length q" and k2: "q' = drop k q" and k3: "n' = n + 1 + k"
      and k4: "s' = foldl (\<lambda>st a. processAction ev a st) (processAction ev a s) (take k q)"
      and k5: "w \<longleftrightarrow> 0 < k \<and> elapsed ev (n + 1 + k) > 50"
      and k6: "\<not> w \<longrightarrow> k = length q"
      and k7: "\<forall>j. 0 < j \<and> j < k \<longrightarrow> elapsed ev (n + 1 + j) \<le> 50"
      by blast+
    have early: "\<forall>j. 0 < j \<and> j < Suc k \<longrightarrow> elapsed ev (n + j) \<le> 50"
    proof (intro allI impI)
      fix j assume j: "0 < j \<and> j < Suc k"
      show "elapsed ev (n + j) \<le> 50"
      proof (cases "j = 1")
        case True
        with False show ?thesis by simp
      next
        case False
        with j have "0 < j - 1 \<and> j - 1 < k" by linarith
        with k7 have "elapsed ev (n + 1 + (j - 1)) \<le> 50" by blast
        moreover have "n + 1 + (j - 1) = n + j" using j by linarith
        ultimately show ?thesis by simp
      qed
    qed
    have "w \<longrightarrow> elapsed ev (n + Suc k) > 50"
      using k5 by simp
    moreover have "elapsed ev (n + Suc k) > 50 \<longrightarrow> w"
    proof
      assume e: "elapsed ev (n + Suc k) > 50"
      show w
      proof (rule ccontr)
        assume "\<not> w"
        with k5 e have "k = 0" by simp
        with e False show False by simp
      qed
    qed
    ultimately have w: "w \<longleftrightarrow> 0 < Suc k \<and> elapsed ev (n + Suc k) > 50"
      by blast
    have a1: "Suc k \<le> length (a # q)" using k1 by simp
    have a2: "q' = drop (Suc k) (a # q)" using k2 by simp
    have a3: "n' = n + Suc k" using k3 by simp
    have a4: "s' = foldl (\<lambda>st a. processAction ev a st) s (take (Suc k) (a # q))"
      using k4 by simp
    have a6: "\<not> w \<longrightarrow> Suc k = length (a # q)" using k6 by simp
    from a1 a2 a3 a4 w a6 early show ?thesis
      by blast
  qed
qed

lemma actionQueue_enqueueAll:
  "\<exists>new. actionQueue (enqueueAll t arrivals s) = actionQueue s @ new"
  unfolding enqueueAll_def
proof (induction arrivals arbitrary: s)
  case Nil
  then show ?case by simp
next
  case (Cons a as)
  obtain new where "actionQueue (fold (\<lambda>a s'. fst (enqueueAction t a s')) as (fst (enqueueAction t a s)))
      = actionQueue (fst (enqueueAction t a s)) @ new"
    using Cons.IH by blast
  then show ?case
    by (cases "atype a = [] \<or> playerId a = []") (auto simp: enqueueAction_def)
qed

text \<open>
  Claim C8. One drain of the action queue processes a prefix of the queue in order
  (the state after it is the fold of \<open>processAction\<close> over the first \<open>k\<close> actions) and
  leaves exactly the remaining suffix in the queue; the warning is logged exactly when
  the time measured after the last processed action exceeds 50 ms, no earlier
  measurement of this drain did, and without the warning the whole queue is drained.
  Whatever is enqueued afterwards goes behind the suffix, so the deferred actions are
  the first ones of the next drain. No action is lost: prefix and suffix make up the
  queue.
\<close>

theorem queue_drains_fifo_prefix:
  "\<exists>k\<le>length (actionQueue s).
      actionQueue (fst (processActionQueue ev s)) = drop k (actionQueue s)
    \<and> entities (fst (processActionQueue ev s))
        = entities (foldl (\<lambda>st a. processAction ev a st) s (take k (actionQueue s)))
    \<and> actionsProcessed (gstats (fst (processActionQueue ev s)))
        = actionsProcessed (gstats (foldl (\<lambda>st a. processAction ev a st) s (take k (actionQueue s)))) + k
    \<and> (snd (processActionQueue ev s) \<longleftrightarrow> 0 < k \<and> elapsed ev k > 50)
    \<and> (\<not> snd (processActionQueue ev s) \<longrightarrow> k = length (actionQueue s))
    \<and> (\<forall>j. 0 < j \<and> j < k \<longrightarrow> elapsed ev j \<le> 50)
    \<and> (\<forall>t arrivals. \<exists>new.
          actionQueue (enqueueAll t arrivals (fst (processActionQueue ev s)))
            = drop k (actionQueue s) @ new)"
proof -
  obtain q' n' w s' where d: "drainLoop ev 0 (actionQueue s) s = (q', n', w, s')"
    by (metis prod_cases4)
  from drainLoop_spec [OF d, unfolded add_0] obtain k where kk: "k \<le> length (actionQueue s) \<and> q' = drop k (actionQueue s)
      \<and> n' = k
      \<and> s' = foldl (\<lambda>st a. processAction ev a st) s (take k (actionQueue s))
      \<and> (w \<longleftrightarrow> 0 < k \<and> elapsed ev k > 50) \<and> (\<not> w \<longrightarrow> k = length (actionQueue s))
      \<and> (\<forall>j. 0 < j \<and> j < k \<longrightarrow> elapsed ev j \<le> 50)"
    by blast
  then have k1: "k \<le> length (actionQueue s)" and k2: "q' = drop k (actionQueue s)"
    and k3: "n' = k"
    and k4: "s' = foldl (\<lambda>st a. processAction ev a st) s (take k (actionQueue s))"
    and k5: "w \<longleftrightarrow> 0 < k \<and> elapsed ev k > 50"
    and k6: "\<not> w \<longrightarrow> k = length (actionQueue s)"
    and k7: "\<forall>j. 0 < j \<and> j < k \<longrightarrow> elapsed ev j \<le> 50"
    by blast+
  have r: "processActionQueue ev s =
      (s'\<lparr>actionQueue := q', gstats := (gstats s')\<lparr>actionsProcessed := actionsProcessed (gstats s') + n'\<rparr>\<rparr>, w)"
    by (simp add: processActionQueue_def d)
  have q: "actionQueue (fst (processActionQueue ev s)) = drop k (actionQueue s)"
    by (simp add: r k2)
  have nextq: "\<forall>t arrivals. \<exists>new.
          actionQueue (enqueueAll t arrivals (fst (processActionQueue ev s)))
            = drop k (actionQueue s) @ new"
    using actionQueue_enqueueAll [of _ _ "fst (processActionQueue ev s)", unfolded q] by blast
  have e: "entities (fst (processActionQueue ev s))
        = entities (foldl (\<lambda>st a. processAction ev a st) s (take k (actionQueue s)))"
    by (simp add: r k4)
  have c: "actionsProcessed (gstats (fst (processActionQueue ev s)))
        = actionsProcessed (gstats (foldl (\<lambda>st a. processAction ev a st) s (take k (actionQueue s)))) + k"
    by (simp add: r k4 k3)
  have w1: "snd (processActionQueue ev s) \<longleftrightarrow> 0 < k \<and> elapsed ev k > 50"
    using k5 by (simp add: r)
  have w2: "\<not> snd (processActionQueue ev s) \<longrightarrow> k = length (actionQueue s)"
    using k6 by (simp add: r)
  have w3: "\<forall>j. 0 < j \<and> j < k \<longrightarrow> elapsed ev j \<le> 50"
    using k7 by simp
  from k1 q e c w1 w2 w3 nextq show ?thesis
    by (intro exI [of _ k] conjI) assumption+
qed

theorem queue_drains_fifo_prefix_witness:
  "actionQueue queuedState = [abilityOf ''p1'', abilityOf ''p2'', abilityOf ''p3'']
   \<and> snd (processActionQueue slowEnv queuedState)
   \<and> actionQueue (fst (processActionQueue slowEnv queuedState)) = [abilityOf ''p3'']
   \<and> elapsed slowEnv 1 \<le> 50 \<and> elapsed slowEnv 2 > 50"
proof -
  have q: "actionQueue queuedState = [abilityOf ''p1'', abilityOf ''p2'', abilityOf ''p3'']"
    by (simp add: queuedState_def)
  have el: "\<And>k. elapsed slowEnv k > 50 \<longleftrightarrow> 2 \<le> k"
    by (simp add: slowEnv_def)
  from queue_drains_fifo_prefix [of queuedState slowEnv] obtain k where
    k1: "k \<le> length (actionQueue queuedState)"
    and k2: "actionQueue (fst (processActionQueue slowEnv queuedState)) = drop k (actionQueue queuedState)"
    and k3: "snd (processActionQueue slowEnv queuedState) \<longleftrightarrow> 0 < k \<and> elapsed slowEnv k > 50"
    and k4: "\<not> snd (processActionQueue slowEnv queuedState) \<longrightarrow> k = length (actionQueue queuedState)"
    and k5: "\<forall>j. 0 < j \<and> j < k \<longrightarrow> elapsed slowEnv j \<le> 50"
    by blast
  have w: "snd (processActionQueue slowEnv queuedState)"
  proof (rule ccontr)
    assume n: "\<not> snd (processActionQueue slowEnv queuedState)"
    with k4 q have "k = 3" by simp
    with k3 n el show False by simp
  qed
  with k3 el have "2 \<le> k" by simp
  moreover have "k \<le> 2"
  proof (rule ccontr)
    assume "\<not> k \<le> 2"
    then have "0 < (2::nat) \<and> 2 < k" by simp
    with k5 have "elapsed slowEnv 2 \<le> 50" by blast
    with el [of 2] show False by simp
  qed
  ultimately have "k = 2" by simp
  with k2 q w el [of 1] el [of 2] show ?thesis
    by simp
qed

section \<open>The tick counter\<close>

lemma Math_round_nearest:
  "\<bar>real_of_int (Math_round v) - v\<bar> \<le> 1 / 2"
  unfolding Math_round_def by linarith

lemma currentTick_addPlayer [simp]: "currentTick (addPlayer ev p s) = currentTick s"
  by (simp add: addPlayer_def Let_def)

lemma currentTick_processAction [simp]: "currentTick (processAction ev a s) = currentTick s"
  by (simp add: processAction_def split: option.splits)

lemma drainLoop_currentTick:
  "drainLoop ev n q s = (q', n', w, s') \<Longrightarrow> currentTick s' = currentTick s"
  by (induction q arbitrary: n s) (auto simp: Let_def split: if_splits)

lemma currentTick_processActionQueue [simp]:
  "currentTick (fst (processActionQueue ev s)) = currentTick s"
  by (auto simp: processActionQueue_def split: prod.splits dest: drainLoop_currentTick)

lemma step_tick:
  "currentTick (fst (step ev s)) = currentTick s + 1"
  "tick (snd (step ev s)) = currentTick s"
  "kind (snd (step ev s)) = ''delta''"
  by (simp_all add: step_def Let_def integratePhysics_def processCollisions_def
      cleanupDeadEntities_def updateStats_def generateDelta_def)

lemma currentTick_enqueueAll [simp]: "currentTick (enqueueAll t as s) = currentTick s"
  unfolding enqueueAll_def
  by (induction as arbitrary: s) (simp_all add: enqueueAction_def)

section \<open>The payload\<close>

lemma step_entities:
  "entities (fst (step ev s)) =
     entities (cleanupDeadEntities (now ev)
       (processCollisions (now ev) (integratePhysics (fst (processActionQueue ev s)))))"
  by (simp add: step_def Let_def updateStats_def)

lemma step_payload:
  "p_entities (snd (step ev s)) = map (\<lambda>(k, e). deltaOf e) (entities (fst (step ev s)))"
  by (simp add: step_def Let_def generateDelta_def)

lemma radius_driftingPlayer: "0 < radius driftingPlayer \<and> radius driftingPlayer \<le> 15 / 2"
proof -
  have "(1001 / 10 :: real) / pi \<le> (1001 / 10) / 2"
    using pi_ge_two by (intro divide_left_mono) simp_all
  then have "sqrt ((1001 / 10) / pi) \<le> sqrt ((1001 / 10) / 2)"
    by (rule real_sqrt_le_mono)
  also have "\<dots> \<le> sqrt ((15 / 2) * (15 / 2))"
    by (rule real_sqrt_le_mono) simp
  also have "\<dots> = (15 / 2 :: real)"
    using real_sqrt_abs2 [of "15 / 2"] by simp
  finally show ?thesis
    by (simp add: driftingPlayer_def radiusFromMass_def)
qed

lemma driftGame_entities_after_step:
  "map (\<lambda>(k, e). (x e, y e, vx e, vy e, mass e)) (entities (fst (step slowEnv driftGame)))
     = [(203 / 20, 301 / 40, - 49 / 20, 49 / 200, 1001 / 10)]"
proof -
  have q: "fst (processActionQueue slowEnv driftGame) = driftGame"
    by (simp add: processActionQueue_def driftGame_def emptyGame_def)
  have sel: "x driftingPlayer = 104 / 10" "y driftingPlayer = 15 / 2"
    "vx driftingPlayer = - 5 / 2" "vy driftingPlayer = 1 / 4" "mass driftingPlayer = 1001 / 10"
    "etype driftingPlayer = ''player''" "isAlive driftingPlayer" "lastInputTime driftingPlayer = 0"
    by (simp_all add: driftingPlayer_def)
  define e1 where "e1 = integrateEntity (1 / 10) arena driftingPlayer"
  have i: "entities (integratePhysics driftGame) = [(''d'', e1)]"
    by (simp add: integratePhysics_def driftGame_def emptyGame_def sel e1_def)
  have c: "entities (processCollisions (now slowEnv) (integratePhysics driftGame)) = [(''d'', e1)]"
    by (simp add: processCollisions_def i Let_def collideRow_def)
  have keep: "etype e1 = ''player''" "isAlive e1" "lastInputTime e1 = 0"
    by (simp_all add: e1_def integrateEntity_def Let_def sel)
  have cl: "entities (cleanupDeadEntities (now slowEnv)
        (processCollisions (now slowEnv) (integratePhysics driftGame))) = [(''d'', e1)]"
    by (simp add: cleanupDeadEntities_def c shouldRemove_def keep)
  have pos: "x e1 = 203 / 20" "y e1 = 301 / 40"
    using radius_driftingPlayer integrateEntity_position [of "1 / 10" arena driftingPlayer]
    by (simp_all add: e1_def sel arena_def max_def min_def)
  have vel: "vx e1 = - 49 / 20" "vy e1 = 49 / 200"
    using integrateEntity_velocity [of "1 / 10" arena driftingPlayer]
    by (simp_all add: e1_def sel)
  have m: "mass e1 = 1001 / 10"
    by (simp add: e1_def integrateEntity_def Let_def sel)
  show ?thesis
    by (simp add: step_entities q cl pos vel m)
qed

text \<open>
  Claim C10. The entities of the payload a tick emits are the entities of the state the
  tick leaves, each with position, velocity, mass and radius passed through
  \<open>Math.round\<close>, which is an integer at distance at most one half. The state keeps its
  unrounded values: the entities the tick leaves are exactly the entities that stood
  before the delta was built (after the action queue, the physics integration, the
  collisions and the culling); \<open>generateDelta\<close> only reads them.
\<close>

theorem delta_is_rounded_state:
  "p_entities (snd (step ev s)) = map (\<lambda>(k, e). deltaOf e) (entities (fst (step ev s)))
   \<and> entities (fst (step ev s)) =
       entities (cleanupDeadEntities (now ev)
         (processCollisions (now ev) (integratePhysics (fst (processActionQueue ev s)))))
   \<and> p_entities (generateDelta t s) = map (\<lambda>(k, e). deltaOf e) (entities s)
   \<and> d_pos (deltaOf e) = (Math_round (x e), Math_round (y e))
   \<and> d_vel (deltaOf e) = (Math_round (vx e), Math_round (vy e))
   \<and> d_mass (deltaOf e) = Math_round (mass e)
   \<and> d_radius (deltaOf e) = Math_round (radius e)
   \<and> \<bar>real_of_int (Math_round v) - v\<bar> \<le> 1 / 2"
  using Math_round_nearest [of v] step_entities [of ev s] step_payload [of ev s]
  by (simp add: generateDelta_def deltaOf_def)

theorem delta_is_rounded_state_witness:
  "map (\<lambda>(k, e). (x e, y e, vx e, vy e, mass e)) (entities (fst (step slowEnv driftGame)))
     = [(203 / 20, 301 / 40, - 49 / 20, 49 / 200, 1001 / 10)]
   \<and> map (\<lambda>d. (d_pos d, d_vel d, d_mass d)) (p_entities (snd (step slowEnv driftGame)))
     = [((10, 8), (- 2, 0), 100)]
   \<and> p_entities (generateDelta 5 driftGame) = [deltaOf driftingPlayer]
   \<and> d_pos (deltaOf driftingPlayer) = (10, 8)
   \<and> d_vel (deltaOf driftingPlayer) = (- 2, 0)
   \<and> d_mass (deltaOf driftingPlayer) = 100
   \<and> x driftingPlayer = 104 / 10 \<and> y driftingPlayer = 15 / 2
   \<and> vx driftingPlayer = - 5 / 2 \<and> vy driftingPlayer = 1 / 4
   \<and> mass driftingPlayer = 1001 / 10"
proof -
  note t = delta_is_rounded_state [where ev = slowEnv and s = driftGame]
  from driftGame_entities_after_step obtain k e where
    one: "entities (fst (step slowEnv driftGame)) = [(k, e)]"
    and f: "x e = 203 / 20" "y e = 301 / 40" "vx e = - 49 / 20" "vy e = 49 / 200"
      "mass e = 1001 / 10"
    by (auto simp: map_eq_Cons_conv)
  have "p_entities (snd (step slowEnv driftGame)) = [deltaOf e]"
    using t one by simp
  then have after: "map (\<lambda>d. (d_pos d, d_vel d, d_mass d)) (p_entities (snd (step slowEnv driftGame)))
     = [((10, 8), (- 2, 0), 100)]"
    using t [of 0 e 0] f by (simp add: Math_round_def)
  have before: "p_entities (generateDelta 5 driftGame) = [deltaOf driftingPlayer]"
    using delta_is_rounded_state [where t = 5 and s = driftGame]
    by (simp add: driftGame_def)
  have vals: "d_pos (deltaOf driftingPlayer) = (10, 8)" "d_vel (deltaOf driftingPlayer) = (- 2, 0)"
    "d_mass (deltaOf driftingPlayer) = 100"
    "x driftingPlayer = 104 / 10" "y driftingPlayer = 15 / 2"
    "vx driftingPlayer = - 5 / 2" "vy driftingPlayer = 1 / 4" "mass driftingPlayer = 1001 / 10"
    using delta_is_rounded_state [where e = driftingPlayer]
    by (simp_all add: driftingPlayer_def Math_round_def)
  from driftGame_entities_after_step after before vals show ?thesis
    by simp
qed

section \<open>Deltas and snapshots\<close>

text \<open>
  Claim C4. In every run of the tick loop with the server's callback, the ticks produce
  one payload of kind \<open>delta\<close> each, numbered consecutively from the current tick, and
  what is sent is each delta, followed, exactly when its tick number is a multiple of
  50, by the same payload with kind \<open>snapshot\<close>.
\<close>

theorem snapshot_every_50_ticks:
  "\<exists>deltas. map kind deltas = replicate (length ticks) ''delta''
     \<and> map tick deltas = [currentTick s ..< currentTick s + length ticks]
     \<and> fst (runLoop ticks s) =
         concat (map (\<lambda>d. if tick d mod 50 = 0 then [d, d\<lparr>kind := ''snapshot''\<rparr>] else [d]) deltas)"
proof (induction ticks arbitrary: s)
  case Nil
  then show ?case by simp
next
  case (Cons tk ticks)
  obtain arrivals ev where tk: "tk = (arrivals, ev)"
    by (cases tk)
  define s0 where "s0 = enqueueAll (now ev) arrivals s"
  define s1 where "s1 = fst (step ev s0)"
  define d where "d = snd (step ev s0)"
  have st: "step ev s0 = (s1, d)"
    by (simp add: s1_def d_def)
  have d1: "kind d = ''delta''" and d2: "tick d = currentTick s"
    and s1t: "currentTick s1 = currentTick s + 1"
    by (simp_all add: d_def s1_def s0_def step_tick)
  from Cons.IH [of s1] obtain deltas where
    ih: "map kind deltas = replicate (length ticks) ''delta''
       \<and> map tick deltas = [currentTick s1 ..< currentTick s1 + length ticks]
       \<and> fst (runLoop ticks s1) =
         concat (map (\<lambda>d. if tick d mod 50 = 0 then [d, d\<lparr>kind := ''snapshot''\<rparr>] else [d]) deltas)"
    by blast
  have run: "fst (runLoop (tk # ticks) s) = publishWorldUpdate d @ fst (runLoop ticks s1)"
    using st by (simp add: tk s0_def split: prod.splits)
  have a: "map kind (d # deltas) = replicate (length (tk # ticks)) ''delta''"
    using ih d1 by simp
  have b: "map tick (d # deltas) = [currentTick s ..< currentTick s + length (tk # ticks)]"
    using ih d2 s1t by (simp add: upt_conv_Cons del: upt_Suc)
  have c: "fst (runLoop (tk # ticks) s) =
         concat (map (\<lambda>d. if tick d mod 50 = 0 then [d, d\<lparr>kind := ''snapshot''\<rparr>] else [d]) (d # deltas))"
    using run ih by (simp add: publishWorldUpdate_def)
  from a b c show ?case
    by blast
qed

theorem snapshot_every_50_ticks_witness:
  "map (\<lambda>p. (kind p, tick p))
     (fst (runLoop [([], slowEnv), ([abilityOf ''p1''], slowEnv)] (emptyGame\<lparr>currentTick := 49\<rparr>)))
   = [(''delta'', 49), (''delta'', 50), (''snapshot'', 50)]"
proof -
  define ticks where "ticks = [([], slowEnv), ([abilityOf ''p1''], slowEnv)]"
  define s where "s = emptyGame\<lparr>currentTick := 49\<rparr>"
  have len: "length ticks = 2" and ct: "currentTick s = 49"
    by (simp_all add: ticks_def s_def)
  from snapshot_every_50_ticks [of ticks s]
  obtain deltas where k: "map kind deltas = replicate (length ticks) ''delta''"
    and t: "map tick deltas = [currentTick s ..< currentTick s + length ticks]"
    and r: "fst (runLoop ticks s) =
         concat (map (\<lambda>d. if tick d mod 50 = 0 then [d, d\<lparr>kind := ''snapshot''\<rparr>] else [d]) deltas)"
    by blast
  have "length deltas = 2"
    using k len by (metis length_map length_replicate)
  then obtain d1 d2 where ds: "deltas = [d1, d2]"
    by (auto simp: numeral_2_eq_2 length_Suc_conv)
  have t49: "[49 ..< 49 + 2] = [49, 50::nat]"
    by (simp add: upt_conv_Cons)
  from k t ds t49 len ct have "kind d1 = ''delta''" "kind d2 = ''delta''" "tick d1 = 49" "tick d2 = 50"
    by (simp_all add: numeral_2_eq_2)
  with r ds have "map (\<lambda>p. (kind p, tick p)) (fst (runLoop ticks s))
      = [(''delta'', 49), (''delta'', 50), (''snapshot'', 50)]"
    by simp
  then show ?thesis
    by (simp only: ticks_def s_def)
qed

section \<open>The spatial hash grid\<close>

lemma set_getEntityCells:
  "set (getEntityCells cs e) =
     {(a, b). \<lfloor>(x (position e) - cradius e) / cs\<rfloor> \<le> a \<and> a \<le> \<lfloor>(x (position e) + cradius e) / cs\<rfloor>
            \<and> \<lfloor>(y (position e) - cradius e) / cs\<rfloor> \<le> b \<and> b \<le> \<lfloor>(y (position e) + cradius e) / cs\<rfloor>}"
  by (auto simp: getEntityCells_def Let_def)

lemma interval_common_cell:
  fixes p q r s cs :: real
  assumes "0 < cs" "0 \<le> r" "0 \<le> s" "\<bar>p - q\<bar> < r + s"
  shows "\<exists>a::int. \<lfloor>(p - r) / cs\<rfloor> \<le> a \<and> a \<le> \<lfloor>(p + r) / cs\<rfloor>
                \<and> \<lfloor>(q - s) / cs\<rfloor> \<le> a \<and> a \<le> \<lfloor>(q + s) / cs\<rfloor>"
proof -
  define m where "m = max (p - r) (q - s)"
  have b: "p - r \<le> m" "m \<le> p + r" "q - s \<le> m" "m \<le> q + s"
    using assms by (auto simp: m_def max_def)
  have "\<lfloor>(p - r) / cs\<rfloor> \<le> \<lfloor>m / cs\<rfloor>" "\<lfloor>m / cs\<rfloor> \<le> \<lfloor>(p + r) / cs\<rfloor>"
    "\<lfloor>(q - s) / cs\<rfloor> \<le> \<lfloor>m / cs\<rfloor>" "\<lfloor>m / cs\<rfloor> \<le> \<lfloor>(q + s) / cs\<rfloor>"
    using b assms(1) by (simp_all add: floor_mono divide_right_mono)
  then show ?thesis
    by blast
qed

lemma abs_le_sqrt_sum:
  fixes a b :: real
  shows "\<bar>a\<bar> \<le> sqrt (a * a + b * b)"
proof -
  have "\<bar>a\<bar> = sqrt (a * a)"
    by simp
  also have "\<dots> \<le> sqrt (a * a + b * b)"
    by (rule real_sqrt_le_mono) simp
  finally show ?thesis .
qed

lemma overlap_common_cell:
  assumes "0 < cs" "0 \<le> cradius e" "0 \<le> cradius e'" "checkCollision_c e e'"
  shows "\<exists>c. c \<in> set (getEntityCells cs e) \<and> c \<in> set (getEntityCells cs e')"
proof -
  let ?dx = "x (position e) - x (position e')"
  let ?dy = "y (position e) - y (position e')"
  have d: "sqrt (?dx * ?dx + ?dy * ?dy) < cradius e + cradius e'"
    using assms(4) by (simp add: checkCollision_c_def Let_def)
  have "\<bar>?dx\<bar> < cradius e + cradius e'" "\<bar>?dy\<bar> < cradius e + cradius e'"
    using d abs_le_sqrt_sum [of ?dx ?dy] abs_le_sqrt_sum [of ?dy ?dx]
    by (simp_all add: add.commute)
  from interval_common_cell [OF assms(1,2,3) this(1)] interval_common_cell [OF assms(1,2,3) this(2)]
  obtain a b :: int where
    "\<lfloor>(x (position e) - cradius e) / cs\<rfloor> \<le> a \<and> a \<le> \<lfloor>(x (position e) + cradius e) / cs\<rfloor>
      \<and> \<lfloor>(x (position e') - cradius e') / cs\<rfloor> \<le> a \<and> a \<le> \<lfloor>(x (position e') + cradius e') / cs\<rfloor>"
    "\<lfloor>(y (position e) - cradius e) / cs\<rfloor> \<le> b \<and> b \<le> \<lfloor>(y (position e) + cradius e) / cs\<rfloor>
      \<and> \<lfloor>(y (position e') - cradius e') / cs\<rfloor> \<le> b \<and> b \<le> \<lfloor>(y (position e') + cradius e') / cs\<rfloor>"
    by blast
  then have "(a, b) \<in> set (getEntityCells cs e) \<and> (a, b) \<in> set (getEntityCells cs e')"
    by (simp add: set_getEntityCells)
  then show ?thesis
    by blast
qed

lemma query_fold:
  "fold (\<lambda>cellKey nearbyEntities.
             case g cellKey of
               None \<Rightarrow> nearbyEntities
             | Some cell \<Rightarrow> nearbyEntities \<union> {i \<in> ids cell. i \<noteq> me}) cells acc
   = acc \<union> {i. i \<noteq> me \<and> (\<exists>c \<in> set cells. registered g c i)}"
  by (induction cells arbitrary: acc) (auto simp: registered_def split: option.splits)

lemma query_set:
  "query sg e = {i. i \<noteq> ident e \<and> (\<exists>c \<in> set (getEntityCells (cellSize sg) e). registered (grid sg) c i)}"
  by (simp add: query_def query_fold)

lemma registered_addToCell:
  "registered (addToCell i c g) c' j \<longleftrightarrow> registered g c' j \<or> (j = i \<and> c' = c)"
  by (auto simp: registered_def addToCell_def split: option.splits)

lemma registered_fold_addToCell:
  "registered (fold (addToCell i) cells g) c j \<longleftrightarrow> registered g c j \<or> (j = i \<and> c \<in> set cells)"
  by (induction cells arbitrary: g) (auto simp: registered_addToCell)

lemma registered_dropFromCell:
  "registered (dropFromCell i c g) c' j \<longleftrightarrow> registered g c' j \<and> \<not> (j = i \<and> c' = c)"
  by (auto simp: registered_def dropFromCell_def split: option.splits)

lemma registered_fold_dropFromCell:
  "registered (fold (dropFromCell i) cells g) c j \<longleftrightarrow> registered g c j \<and> \<not> (j = i \<and> c \<in> set cells)"
  by (induction cells arbitrary: g) (auto simp: registered_dropFromCell)

lemma cellSize_insert_grid [simp]: "cellSize (insert_grid e sg) = cellSize sg"
  by (simp add: insert_grid_def Let_def)

lemma cellSize_remove_grid [simp]: "cellSize (remove_grid i sg) = cellSize sg"
  by (simp add: remove_grid_def Let_def)

lemma cellSize_update_grid [simp]: "cellSize (update_grid e sg) = cellSize sg"
  by (simp add: update_grid_def)

lemma registered_insert_grid:
  "registered (grid (insert_grid e sg)) c j \<longleftrightarrow>
     registered (grid sg) c j \<or> (j = ident e \<and> c \<in> set (getEntityCells (cellSize sg) e))"
  by (simp add: insert_grid_def Let_def registered_fold_addToCell)

lemma registered_remove_grid:
  "j \<noteq> i \<Longrightarrow> registered (grid (remove_grid i sg)) c j \<longleftrightarrow> registered (grid sg) c j"
  by (simp add: remove_grid_def Let_def registered_fold_dropFromCell)

lemma inSync_iff:
  "inSync sg es \<longleftrightarrow>
     (\<forall>e \<in> set es. \<forall>c \<in> set (getEntityCells (cellSize sg) e). registered (grid sg) c (ident e))"
  by (simp add: inSync_def list_all_iff)

lemma inSync_insert_grid:
  "inSync sg es \<Longrightarrow> inSync (insert_grid e sg) (e # es)"
  by (auto simp: inSync_iff registered_insert_grid)

lemma inSync_remove_grid:
  "inSync sg es \<Longrightarrow> inSync (remove_grid i sg) (filter (\<lambda>e. ident e \<noteq> i) es)"
  by (auto simp: inSync_iff registered_remove_grid)

lemma inSync_update_grid:
  "inSync sg es \<Longrightarrow> inSync (update_grid e sg) (e # filter (\<lambda>other. ident other \<noteq> ident e) es)"
  unfolding update_grid_def
  by (intro inSync_insert_grid inSync_remove_grid)

lemma inSync_fold_insert:
  "inSync sg es0 \<Longrightarrow> \<forall>e \<in> set (es0 @ es). \<forall>c \<in> set (getEntityCells (cellSize sg) e).
      registered (grid (fold insert_grid es sg)) c (ident e)"
proof (induction es arbitrary: sg es0)
  case Nil
  then show ?case by (simp add: inSync_iff)
next
  case (Cons a es)
  have "inSync (insert_grid a sg) (a # es0)"
    using Cons.prems by (rule inSync_insert_grid)
  from Cons.IH [OF this] show ?case
    by auto
qed

lemma cellSize_fold_insert [simp]: "cellSize (fold insert_grid es sg) = cellSize sg"
  by (induction es arbitrary: sg) simp_all

lemma inSync_rebuild: "inSync (rebuild es sg) es"
proof -
  have "inSync (clear_grid sg) []"
    by (simp add: inSync_def)
  from inSync_fold_insert [OF this, of es] show ?thesis
    by (simp add: inSync_iff rebuild_def)
qed

lemma cellSize_rebuild [simp]: "cellSize (rebuild es sg) = cellSize sg"
  by (simp add: rebuild_def clear_grid_def)

lemma overlaps_in_query:
  assumes "0 < cellSize sg" and "inSync sg es"
    and "0 \<le> cradius e" and "\<forall>other \<in> set es. 0 \<le> cradius other"
  shows "set (bruteForceOverlaps es e) \<subseteq> query sg e"
proof
  fix i assume "i \<in> set (bruteForceOverlaps es e)"
  then obtain other where o: "other \<in> set es" "ident other = i" "ident other \<noteq> ident e"
      "checkCollision_c e other"
    by (auto simp: bruteForceOverlaps_def)
  from overlap_common_cell [OF assms(1,3) _ o(4)] assms(4) o(1)
  obtain c where c: "c \<in> set (getEntityCells (cellSize sg) e)"
      "c \<in> set (getEntityCells (cellSize sg) other)"
    by blast
  from assms(2) o(1) c(2) have "registered (grid sg) c (ident other)"
    by (auto simp: inSync_def list_all_iff)
  with c(1) o(2,3) show "i \<in> query sg e"
    by (auto simp: query_set)
qed

text \<open>
  Claim C5. For a grid with a positive cell size and entities with non-negative radii
  (a radius is a square root): whenever the grid is in sync with the entities, the
  result of \<open>query e\<close> contains the id of every other entity whose circle overlaps the
  circle of \<open>e\<close>, as brute-force testing of all entities finds them. \<open>rebuild\<close> puts
  the grid in sync with any list of entities, and \<open>insert\<close> and \<open>update\<close> keep it in
  sync with the entity they are given and the entities of other ids.
\<close>

theorem query_covers_overlaps:
  assumes "0 < cellSize sg" and "0 \<le> cradius e" and "\<forall>other \<in> set es. 0 \<le> cradius other"
  shows "(inSync sg es \<longrightarrow> set (bruteForceOverlaps es e) \<subseteq> query sg e)
       \<and> inSync (rebuild es sg) es
       \<and> set (bruteForceOverlaps es e) \<subseteq> query (rebuild es sg) e
       \<and> (inSync sg es \<longrightarrow> inSync (insert_grid e sg) (e # es))
       \<and> (inSync sg es \<longrightarrow>
            inSync (update_grid e sg) (e # filter (\<lambda>other. ident other \<noteq> ident e) es))"
proof -
  have a: "inSync sg es \<longrightarrow> set (bruteForceOverlaps es e) \<subseteq> query sg e"
    using overlaps_in_query [OF assms(1) _ assms(2,3)] by blast
  have b: "inSync (rebuild es sg) es"
    by (rule inSync_rebuild)
  have "0 < cellSize (rebuild es sg)"
    using assms(1) by simp
  from overlaps_in_query [OF this b assms(2,3)]
  have c: "set (bruteForceOverlaps es e) \<subseteq> query (rebuild es sg) e" .
  from a b c inSync_insert_grid [of sg es e] inSync_update_grid [of sg es e] show ?thesis
    by blast
qed

lemma sqrt_10000: "sqrt 10000 = (100::real)"
  using real_sqrt_abs [of 100] by simp

theorem query_covers_overlaps_witness:
  "0 < cellSize (newGrid 150) \<and> 0 \<le> cradius (cellNear ''a'' 100 100 60)
   \<and> list_all (\<lambda>other. 0 \<le> cradius other) gridCrowd
   \<and> bruteForceOverlaps gridCrowd (cellNear ''a'' 100 100 60) = [''b'']
   \<and> ''b'' \<in> query (rebuild gridCrowd (newGrid 150)) (cellNear ''a'' 100 100 60)"
proof -
  have h1: "0 < cellSize (newGrid 150)"
    by (simp add: newGrid_def)
  have h2: "0 \<le> cradius (cellNear ''a'' 100 100 60)"
    by (simp add: cellNear_def)
  have h3: "\<forall>other \<in> set gridCrowd. 0 \<le> cradius other"
    by (simp add: gridCrowd_def cellNear_def)
  have far: "\<not> sqrt 1620000 < (70::real)"
  proof -
    have "(70::real) = sqrt (70 * 70)" by simp
    also have "\<dots> \<le> sqrt 1620000" by (intro real_sqrt_le_mono) simp
    finally show ?thesis by simp
  qed
  have bf: "bruteForceOverlaps gridCrowd (cellNear ''a'' 100 100 60) = [''b'']"
    using far by (simp add: bruteForceOverlaps_def gridCrowd_def cellNear_def checkCollision_c_def
        Let_def sqrt_10000)
  from query_covers_overlaps [OF h1 h2 h3]
  have "set (bruteForceOverlaps gridCrowd (cellNear ''a'' 100 100 60))
          \<subseteq> query (rebuild gridCrowd (newGrid 150)) (cellNear ''a'' 100 100 60)"
    by blast
  with bf h1 h2 h3 show ?thesis
    by (simp add: list_all_iff)
qed

section \<open>Splitting\<close>

declare digits.simps [simp del]

lemma splitCellId_neq [simp]: "splitCellId pid t \<noteq> pid" "pid \<noteq> splitCellId pid t"
  by (simp_all add: splitCellId_def)

lemma applyMovement_some:
  "pentities pe i = Some e \<Longrightarrow>
     \<exists>v. pentities (applyMovement i d pe) = (pentities pe)(i \<mapsto> e\<lparr>velocity := v\<rparr>)"
  by (simp add: applyMovement_def Let_def del: ex_simps) blast

lemma applyMovement_none:
  "pentities pe i = None \<Longrightarrow> pentities (applyMovement i d pe) = pentities pe"
  by (simp add: applyMovement_def)

lemma performSplit_rejected:
  "\<not> canPlayerSplit t sys pid \<Longrightarrow> performSplit t pid d sys = (sys, False)"
  by (simp add: performSplit_def)

lemma performSplit_unfold:
  assumes "canPlayerSplit t sys pid" and "pentities (physicsEngine sys) pid = Some player"
  shows "\<exists>dA dB pos. performSplit t pid d sys =
     (sys\<lparr>physicsEngine :=
            applyMovement pid dB
              (applyMovement (splitCellId pid t) dA
                (createEntity_c (splitCellId pid t) (ctype player)
                   (cmass player * splitRatio (config sys)) pos
                   (updateEntityMass pid (cmass player - cmass player * splitRatio (config sys))
                      (physicsEngine sys)))),
          playerSplits := (playerSplits sys)(pid \<mapsto>
             (case playerSplits sys pid of None \<Rightarrow> [] | Some l \<Rightarrow> l) @
             [\<lparr>ps_id = splitCellId pid t, parentId = pid, ps_createdAt = t, canMerge = False\<rparr>]),
          lastSplitTime := (lastSplitTime sys)(pid \<mapsto> t)\<rparr>, True)"
proof -
  define d0 where "d0 = (case d of None \<Rightarrow> \<lparr>x = 0, y = -1\<rparr> | Some v \<Rightarrow> v)"
  define sd where "sd = (if sqrt ((x d0)\<^sup>2 + (y d0)\<^sup>2) > 0
      then \<lparr>x = x d0 / sqrt ((x d0)\<^sup>2 + (y d0)\<^sup>2), y = y d0 / sqrt ((x d0)\<^sup>2 + (y d0)\<^sup>2)\<rparr> else d0)"
  define pe1 where "pe1 = updateEntityMass pid (cmass player - cmass player * splitRatio (config sys))
                      (physicsEngine sys)"
  define r1 where "r1 = (case pentities pe1 pid of None \<Rightarrow> cradius player | Some p1 \<Rightarrow> cradius p1)"
  define pos where "pos = \<lparr>x = x (position player) + x sd * (r1 + 10),
                     y = y (position player) + y sd * (r1 + 10)\<rparr>"
  define dA where "dA = \<lparr>x = x sd * splitForce (config sys), y = y sd * splitForce (config sys)\<rparr>"
  define dB where "dB = \<lparr>x = - x sd * (splitForce (config sys) * (3 / 10)),
                           y = - y sd * (splitForce (config sys) * (3 / 10))\<rparr>"
  have "performSplit t pid d sys =
     (sys\<lparr>physicsEngine :=
            applyMovement pid dB
              (applyMovement (splitCellId pid t) dA
                (createEntity_c (splitCellId pid t) (ctype player)
                   (cmass player * splitRatio (config sys)) pos pe1)),
          playerSplits := (playerSplits sys)(pid \<mapsto>
             (case playerSplits sys pid of None \<Rightarrow> [] | Some l \<Rightarrow> l) @
             [\<lparr>ps_id = splitCellId pid t, parentId = pid, ps_createdAt = t, canMerge = False\<rparr>]),
          lastSplitTime := (lastSplitTime sys)(pid \<mapsto> t)\<rparr>, True)"
    unfolding performSplit_def Let_def dB_def dA_def pos_def r1_def pe1_def sd_def d0_def
    using assms by (simp only: simp_thms if_False if_True option.case)
  then show ?thesis
    unfolding pe1_def by blast
qed






lemma soloSystem_facts:
  "pentities (physicsEngine soloSystem) ''player'' =
     Some \<lparr>ident = ''player'', position = \<lparr>x = 1000, y = 1000\<rparr>, velocity = \<lparr>x = 0, y = 0\<rparr>,
           cmass = 80, cradius = calculateRadius 80, ctype = ''player''\<rparr>"
  "playerSplits soloSystem = Map.empty" "lastSplitTime soloSystem = Map.empty"
  "config soloSystem = defaultSplitConfig"
  by (simp_all add: soloSystem_def newSplitMergeSystem_def newPhysicsEngine_def)









section \<open>The radius follows the mass\<close>

lemma radiusFromMass_sqrt: "0 \<le> m \<Longrightarrow> radiusFromMass m = sqrt (m / pi)"
  by (simp add: radiusFromMass_def)

lemma storeOk_iff: "storeOk store \<longleftrightarrow> (\<forall>(k, e) \<in> set store. radiusOk e)"
  by (simp add: storeOk_def list_all_iff)

lemma storeOk_update:
  "storeOk store \<Longrightarrow> radiusOk e \<Longrightarrow> storeOk (AList.update k e store)"
  by (induction store) (auto simp: storeOk_def)

lemma storeOk_lookup: "storeOk store \<Longrightarrow> map_of store k = Some e \<Longrightarrow> radiusOk e"
  by (auto simp: storeOk_iff dest: map_of_SomeD)

lemma radiusOk_createEntity:
  "0 \<le> orDefault (c_mass c) INITIAL_PLAYER_MASS \<Longrightarrow> radiusOk (createEntity t u c)"
  by (simp add: radiusOk_def radiusFromMass_sqrt)

lemma storeOk_addPlayer: "storeOk (entities s) \<Longrightarrow> storeOk (entities (addPlayer ev p s))"
  by (simp add: addPlayer_def Let_def storeOk_update radiusOk_createEntity INITIAL_PLAYER_MASS_def)

lemma radiusOk_processInputAction: "radiusOk e \<Longrightarrow> radiusOk (processInputAction ev e d)"
  by (simp add: processInputAction_def radiusOk_def Let_def split: option.splits)

lemma storeOk_processSplitAction:
  assumes "storeOk store" and "radiusOk e"
  shows "storeOk (processSplitAction ev k e store)"
proof (cases "mass e < 50")
  case True
  then show ?thesis using assms by (simp add: processSplitAction_def)
next
  case False
  then have h: "0 \<le> mass e / 2" by simp
  have e1: "radiusOk (e\<lparr>mass := mass e / 2, radius := radiusFromMass (mass e / 2)\<rparr>)"
    using h by (simp add: radiusOk_def radiusFromMass_sqrt)
  have f: "\<And>t u c. c_mass c = Some (mass e / 2) \<Longrightarrow> radiusOk (createEntity t u c)"
    using h by (simp add: radiusOk_createEntity)
  show ?thesis
    using False assms(1) e1
    by (simp add: processSplitAction_def Let_def storeOk_update f)
qed

lemma storeOk_processAction:
  assumes "storeOk (entities s)"
  shows "storeOk (entities (processAction ev a s))"
proof (cases "map_of (entities s) (playerId a)")
  case None
  then show ?thesis
    using assms by (simp add: processAction_def storeOk_addPlayer)
next
  case (Some e)
  then have "radiusOk e"
    using assms by (rule storeOk_lookup [rotated])
  then show ?thesis
    using assms Some
    by (simp add: processAction_def storeOk_update radiusOk_processInputAction
        storeOk_processSplitAction)
qed

lemma storeOk_drainLoop:
  "storeOk (entities s) \<Longrightarrow> drainLoop ev n q s = (q', n', w, s') \<Longrightarrow> storeOk (entities s')"
proof (induction q arbitrary: n s)
  case Nil
  then show ?case by simp
next
  case (Cons a q)
  have "storeOk (entities (processAction ev a s))"
    using Cons.prems(1) by (rule storeOk_processAction)
  with Cons show ?case
    by (auto simp: Let_def split: if_splits)
qed

lemma storeOk_processActionQueue:
  "storeOk (entities s) \<Longrightarrow> storeOk (entities (fst (processActionQueue ev s)))"
  by (auto simp: processActionQueue_def split: prod.splits dest: storeOk_drainLoop)

lemma radiusOk_integrateEntity: "radiusOk e \<Longrightarrow> radiusOk (integrateEntity dt b e)"
  by (simp add: integrateEntity_def radiusOk_def Let_def)

lemma storeOk_integratePhysics:
  "storeOk (entities s) \<Longrightarrow> storeOk (entities (integratePhysics s))"
  by (auto simp: integratePhysics_def storeOk_iff radiusOk_integrateEntity split: if_splits)

lemma radiusOk_collidePair:
  assumes "radiusOk A" and "radiusOk B"
  shows "radiusOk (fst (collidePair t A B)) \<and> radiusOk (snd (collidePair t A B))"
  using assms
  by (auto simp: collidePair_def handleCollision_def radiusOk_def radiusFromMass_sqrt split_beta)

lemma fold_invariant:
  "(\<And>a st. a \<in> set xs \<Longrightarrow> I st \<Longrightarrow> I (f a st)) \<Longrightarrow> I st \<Longrightarrow> I (fold f xs st)"
  by (induction xs arbitrary: st) simp_all

lemma collideAt_ok:
  assumes "i < length es" and "j < length es" and "list_all radiusOk es"
  shows "length (collideAt t i j es) = length es \<and> list_all radiusOk (collideAt t i j es)"
proof -
  have "radiusOk (es ! i)" "radiusOk (es ! j)"
    using assms by (simp_all add: list_all_length)
  from radiusOk_collidePair [OF this, of t]
  have ok: "radiusOk (fst (collidePair t (es ! i) (es ! j)))"
    "radiusOk (snd (collidePair t (es ! i) (es ! j)))"
    by simp_all
  have "set es \<subseteq> {e. radiusOk e}"
    using assms(3) by (auto simp: list_all_iff)
  then have "set ((es[i := fst (collidePair t (es ! i) (es ! j))])
                      [j := snd (collidePair t (es ! i) (es ! j))]) \<subseteq> {e. radiusOk e}"
    using ok by (intro set_update_subsetI) simp_all
  then have "\<forall>e \<in> set ((es[i := fst (collidePair t (es ! i) (es ! j))])
                      [j := snd (collidePair t (es ! i) (es ! j))]). radiusOk e"
    by blast
  then show ?thesis
    by (simp add: collideAt_def split_beta list_all_iff)
qed

lemma collideRow_ok:
  assumes "i < length es" and "list_all radiusOk es"
  shows "length (collideRow t i es) = length es \<and> list_all radiusOk (collideRow t i es)"
proof -
  define n where "n = length es"
  have "length (fold (collideAt t i) [Suc i ..< n] es) = n
      \<and> list_all radiusOk (fold (collideAt t i) [Suc i ..< n] es)"
  proof (rule fold_invariant [where I = "\<lambda>st. length st = n \<and> list_all radiusOk st"])
    fix j st assume "j \<in> set [Suc i ..< n]" and "length st = n \<and> list_all radiusOk st"
    then show "length (collideAt t i j st) = n \<and> list_all radiusOk (collideAt t i j st)"
      using collideAt_ok [of i st j t] assms(1) by (simp add: n_def)
  next
    show "length es = n \<and> list_all radiusOk es"
      using assms(2) by (simp add: n_def)
  qed
  then show ?thesis
    by (simp add: collideRow_def n_def)
qed

lemma collideAll_ok:
  assumes "list_all radiusOk es"
  shows "length (fold (collideRow t) [0 ..< length es] es) = length es
       \<and> list_all radiusOk (fold (collideRow t) [0 ..< length es] es)"
proof -
  define n where "n = length es"
  have "length (fold (collideRow t) [0 ..< n] es) = n
      \<and> list_all radiusOk (fold (collideRow t) [0 ..< n] es)"
  proof (rule fold_invariant [where I = "\<lambda>st. length st = n \<and> list_all radiusOk st"])
    fix i st assume "i \<in> set [0 ..< n]" and "length st = n \<and> list_all radiusOk st"
    then show "length (collideRow t i st) = n \<and> list_all radiusOk (collideRow t i st)"
      using collideRow_ok [of i st t] by simp
  next
    show "length es = n \<and> list_all radiusOk es"
      using assms by (simp add: n_def)
  qed
  then show ?thesis
    by (simp add: n_def)
qed

lemma storeOk_processCollisions:
  assumes "storeOk (entities s)"
  shows "storeOk (entities (processCollisions t s))"
proof -
  have "list_all radiusOk (map snd (entities s))"
    using assms by (auto simp: storeOk_iff list_all_iff)
  from collideAll_ok [OF this, of t]
  have "list_all radiusOk (fold (collideRow t) [0 ..< length (entities s)] (map snd (entities s)))"
    by simp
  then show ?thesis
    by (auto simp: processCollisions_def Let_def storeOk_iff list_all_iff dest: set_zip_rightD)
qed

lemma storeOk_cleanupDeadEntities:
  "storeOk (entities s) \<Longrightarrow> storeOk (entities (cleanupDeadEntities t s))"
  by (auto simp: cleanupDeadEntities_def storeOk_iff)

lemma storeOk_step: "storeOk (entities s) \<Longrightarrow> storeOk (entities (fst (step ev s)))"
  by (simp add: step_def Let_def updateStats_def storeOk_cleanupDeadEntities
      storeOk_processCollisions storeOk_integratePhysics storeOk_processActionQueue)

lemma engineOk_iff: "engineOk pe \<longleftrightarrow> (\<forall>i e. pentities pe i = Some e \<longrightarrow> radiusOk_c e)"
  by (auto simp: engineOk_def ran_def)

lemma engineOk_createEntity_c:
  "engineOk pe \<Longrightarrow> 0 \<le> m \<Longrightarrow> engineOk (createEntity_c i ty m pos pe)"
  by (auto simp: engineOk_iff radiusOk_c_def calculateRadius_def split: if_splits)

lemma engineOk_updateEntityMass:
  "engineOk pe \<Longrightarrow> 0 \<le> m \<Longrightarrow> engineOk (updateEntityMass i m pe)"
  by (auto simp: engineOk_iff radiusOk_c_def calculateRadius_def split: if_splits option.splits)

lemma engineOk_applyMovement: "engineOk pe \<Longrightarrow> engineOk (applyMovement i d pe)"
proof (cases "pentities pe i")
  case None
  then show "engineOk pe \<Longrightarrow> engineOk (applyMovement i d pe)"
    by (simp add: engineOk_iff applyMovement_none)
next
  case (Some e)
  assume ok: "engineOk pe"
  from applyMovement_some [OF Some, of d] obtain v where
    "pentities (applyMovement i d pe) = (pentities pe)(i \<mapsto> e\<lparr>velocity := v\<rparr>)"
    by blast
  with ok Some show "engineOk (applyMovement i d pe)"
    by (auto simp: engineOk_iff radiusOk_c_def split: if_splits)
qed

lemma engineOk_removeEntity: "engineOk pe \<Longrightarrow> engineOk (removeEntity i pe)"
  by (auto simp: engineOk_iff split: if_splits)

lemma engineOk_processEatingCollision:
  assumes "engineOk pe"
  shows "engineOk (fst (processEatingCollision i j pe))"
proof (cases "snd (processEatingCollision i j pe)")
  case False
  then have "fst (processEatingCollision i j pe) = pe"
    by (auto simp: processEatingCollision_def Let_def split: option.splits if_splits)
  with assms show ?thesis by simp
next
  case True
  then obtain predator prey where p: "pentities pe i = Some predator" "pentities pe j = Some prey"
    and r: "fst (processEatingCollision i j pe) =
       (updateEntityMass i (cmass predator + cmass prey) pe)
         \<lparr>pentities := (pentities (updateEntityMass i (cmass predator + cmass prey) pe))(j := None)\<rparr>"
    by (auto simp: processEatingCollision_def Let_def split: option.splits if_splits)
  have "0 \<le> cmass predator + cmass prey"
    using assms p by (auto simp: engineOk_iff radiusOk_c_def)
  then have "engineOk (updateEntityMass i (cmass predator + cmass prey) pe)"
    using assms by (intro engineOk_updateEntityMass)
  then show ?thesis
    unfolding r by (auto simp: engineOk_iff split: if_splits)
qed

lemma engineOk_performSplit:
  assumes "engineOk (physicsEngine sys)" and "0 \<le> splitRatio (config sys)"
    and "splitRatio (config sys) \<le> 1"
  shows "engineOk (physicsEngine (fst (performSplit t pid d sys)))
       \<and> config (fst (performSplit t pid d sys)) = config sys"
proof (cases "canPlayerSplit t sys pid")
  case False
  then show ?thesis
    using assms(1) by (simp add: performSplit_rejected)
next
  case True
  then obtain player where pl: "pentities (physicsEngine sys) pid = Some player"
    by (auto simp: canPlayerSplit_def split: option.splits)
  then have m: "0 \<le> cmass player"
    using assms(1) by (auto simp: engineOk_iff radiusOk_c_def)
  have nn: "0 \<le> cmass player * splitRatio (config sys)"
    using m assms(2) by simp
  have "cmass player * splitRatio (config sys) \<le> cmass player * 1"
    using m assms(3) by (intro mult_left_mono) simp_all
  then have rem: "0 \<le> cmass player - cmass player * splitRatio (config sys)"
    by simp
  from performSplit_unfold [OF True pl, of d] obtain dA dB pos where
    u: "performSplit t pid d sys =
     (sys\<lparr>physicsEngine :=
            applyMovement pid dB
              (applyMovement (splitCellId pid t) dA
                (createEntity_c (splitCellId pid t) (ctype player)
                   (cmass player * splitRatio (config sys)) pos
                   (updateEntityMass pid (cmass player - cmass player * splitRatio (config sys))
                      (physicsEngine sys)))),
          playerSplits := (playerSplits sys)(pid \<mapsto>
             (case playerSplits sys pid of None \<Rightarrow> [] | Some l \<Rightarrow> l) @
             [\<lparr>ps_id = splitCellId pid t, parentId = pid, ps_createdAt = t, canMerge = False\<rparr>]),
          lastSplitTime := (lastSplitTime sys)(pid \<mapsto> t)\<rparr>, True)"
    by blast
  have "engineOk (applyMovement pid dB
              (applyMovement (splitCellId pid t) dA
                (createEntity_c (splitCellId pid t) (ctype player)
                   (cmass player * splitRatio (config sys)) pos
                   (updateEntityMass pid (cmass player - cmass player * splitRatio (config sys))
                      (physicsEngine sys)))))"
    using assms(1) nn rem
    by (intro engineOk_applyMovement engineOk_createEntity_c engineOk_updateEntityMass)
  then show ?thesis
    by (simp add: u)
qed

lemma engineOk_handleSplitInput:
  assumes "engineOk (physicsEngine sys)" and "0 \<le> splitRatio (config sys)"
    and "splitRatio (config sys) \<le> 1"
  shows "engineOk (physicsEngine (handleSplitInput t pid d sys))"
proof -
  have "engineOk (physicsEngine (handleSplitInput t pid d sys))
      \<and> config (handleSplitInput t pid d sys) = config sys"
    unfolding handleSplitInput_def
  proof (rule fold_invariant [where I = "\<lambda>st. engineOk (physicsEngine st) \<and> config st = config sys"])
    fix cell :: Entity and st :: SplitMergeSystem
    assume "engineOk (physicsEngine st) \<and> config st = config sys"
    then show "engineOk (physicsEngine (if canPlayerSplit t st (ident cell)
            then fst (performSplit t (ident cell) d st) else st))
        \<and> config (if canPlayerSplit t st (ident cell)
            then fst (performSplit t (ident cell) d st) else st) = config sys"
      using engineOk_performSplit [of st t "ident cell" d] assms(2,3) by simp
  next
    show "engineOk (physicsEngine sys) \<and> config sys = config sys"
      using assms(1) by simp
  qed
  then show ?thesis
    by simp
qed

lemma physicsEngine_removePlayerSplit [simp]:
  "physicsEngine (removePlayerSplit pid sid sys) = physicsEngine sys"
  by (simp add: removePlayerSplit_def Let_def)

lemma engineOk_setPosition:
  "engineOk pe \<Longrightarrow>
   engineOk (pe\<lparr>pentities := (case pentities pe pid of
                                None \<Rightarrow> pentities pe
                              | Some p1 \<Rightarrow> (pentities pe)(pid \<mapsto> p1\<lparr>position := np\<rparr>))\<rparr>)"
  by (auto simp: engineOk_iff radiusOk_c_def split: option.splits if_splits)

lemma engineOk_mergeCells:
  assumes "engineOk (physicsEngine sys)"
  shows "engineOk (physicsEngine (mergeCells pid sid sys))"
proof (cases "pentities (physicsEngine sys) pid")
  case None
  then show ?thesis using assms by (simp add: mergeCells_def)
next
  case (Some parent)
  note parent = this
  show ?thesis
  proof (cases "pentities (physicsEngine sys) sid")
    case None
    then show ?thesis using assms parent by (simp add: mergeCells_def)
  next
    case (Some split)
    have "0 \<le> cmass parent + cmass split"
      using assms Some parent by (auto simp: engineOk_iff radiusOk_c_def)
    then have ok1: "engineOk (updateEntityMass pid (cmass parent + cmass split) (physicsEngine sys))"
      using assms by (intro engineOk_updateEntityMass)
    have "physicsEngine (mergeCells pid sid sys) =
        removeEntity sid
         ((updateEntityMass pid (cmass parent + cmass split) (physicsEngine sys))
          \<lparr>pentities :=
             (case pentities (updateEntityMass pid (cmass parent + cmass split) (physicsEngine sys)) pid of
                None \<Rightarrow> pentities (updateEntityMass pid (cmass parent + cmass split) (physicsEngine sys))
              | Some p1 \<Rightarrow> (pentities (updateEntityMass pid (cmass parent + cmass split) (physicsEngine sys)))
                  (pid \<mapsto> p1\<lparr>position :=
                     \<lparr>x = (x (position parent) * cmass parent + x (position split) * cmass split)
                            / (cmass parent + cmass split),
                      y = (y (position parent) * cmass parent + y (position split) * cmass split)
                            / (cmass parent + cmass split)\<rparr>\<rparr>))\<rparr>)"
      using Some parent
      by (simp add: mergeCells_def Let_def del: pentities_updateEntityMass)
    then show ?thesis
      using ok1 by (simp only: engineOk_removeEntity engineOk_setPosition)
  qed
qed

lemma engineOk_attemptMerge:
  "engineOk (physicsEngine sys) \<Longrightarrow> engineOk (physicsEngine (attemptMerge pid sid sys))"
  by (simp add: attemptMerge_def Let_def engineOk_mergeCells split: option.splits)

text \<open>
  Claim C6. Every state-mutating operation keeps the stored radius equal to
  \<open>sqrt (mass / pi)\<close>. Server: an entity created with a non-negative mass (or with the
  default mass) has it; spawning a player, processing any action (input, split), a
  pass of the collision loop (eating) and a whole tick keep it for every entity of the
  store. Client: creating an entity, an explicit mass update, eating, splitting (ratio
  between 0 and 1), the split input and merging keep it for every entity of the
  engine. No operation writes a radius that is not recomputed from the mass.
\<close>

theorem radius_follows_mass:
  assumes "storeOk (entities s)" and "engineOk (physicsEngine sys)" and "0 \<le> m"
    and "0 \<le> splitRatio (config sys)" and "splitRatio (config sys) \<le> 1"
  shows "radiusOk (createEntity t u (c\<lparr>c_mass := Some m\<rparr>))
       \<and> radiusOk (createEntity t u (c\<lparr>c_mass := None\<rparr>))
       \<and> storeOk (entities (addPlayer ev p s))
       \<and> storeOk (entities (processAction ev a s))
       \<and> storeOk (entities (processCollisions t s))
       \<and> storeOk (entities (fst (step ev s)))
       \<and> (radiusOk A \<and> radiusOk B \<longrightarrow>
            radiusOk (fst (collidePair t A B)) \<and> radiusOk (snd (collidePair t A B)))
       \<and> engineOk (createEntity_c i ty m pos (physicsEngine sys))
       \<and> engineOk (updateEntityMass i m (physicsEngine sys))
       \<and> engineOk (fst (processEatingCollision i j (physicsEngine sys)))
       \<and> engineOk (physicsEngine (fst (performSplit t pid d sys)))
       \<and> engineOk (physicsEngine (handleSplitInput t pid d sys))
       \<and> engineOk (physicsEngine (mergeCells pid sid sys))
       \<and> engineOk (physicsEngine (attemptMerge pid sid sys))"
proof -
  have c1: "radiusOk (createEntity t u (c\<lparr>c_mass := Some m\<rparr>))"
    using assms(3) by (simp add: radiusOk_createEntity)
  have c2: "radiusOk (createEntity t u (c\<lparr>c_mass := None\<rparr>))"
    by (simp add: radiusOk_createEntity INITIAL_PLAYER_MASS_def)
  have c3: "radiusOk A \<and> radiusOk B \<longrightarrow>
            radiusOk (fst (collidePair t A B)) \<and> radiusOk (snd (collidePair t A B))"
    using radiusOk_collidePair [of A B t] by blast
  note server = storeOk_addPlayer [OF assms(1), of ev p] storeOk_processAction [OF assms(1), of ev a]
    storeOk_processCollisions [OF assms(1), of t] storeOk_step [OF assms(1), of ev]
  note client = engineOk_createEntity_c [OF assms(2,3), of i ty pos]
    engineOk_updateEntityMass [OF assms(2,3), of i]
    engineOk_processEatingCollision [OF assms(2), of i j]
    engineOk_performSplit [OF assms(2,4,5), of t pid d, THEN conjunct1]
    engineOk_handleSplitInput [OF assms(2,4,5), of t pid d]
    engineOk_mergeCells [OF assms(2), of pid sid]
    engineOk_attemptMerge [OF assms(2), of pid sid]
  from c1 c2 c3 server client show ?thesis
    by (intro conjI) assumption+
qed

lemma storeOk_soloGame: "storeOk (entities soloGame)"
  by (simp add: soloGame_def storeOk_def radiusOk_def radiusFromMass_sqrt)

lemma engineOk_soloSystem: "engineOk (physicsEngine soloSystem)"
  by (simp add: soloSystem_def newSplitMergeSystem_def newPhysicsEngine_def engineOk_def
      radiusOk_c_def calculateRadius_def)

theorem radius_follows_mass_witness:
  "storeOk (entities soloGame) \<and> engineOk (physicsEngine soloSystem)
   \<and> splitRatio (config soloSystem) = 1 / 2
   \<and> storeOk (entities (fst (step slowEnv soloGame)))
   \<and> storeOk (entities (processAction slowEnv (splitOf ''p'') soloGame))
   \<and> radiusOk bigPlayer \<and> radiusOk smallPlayer
   \<and> radius (fst (collidePair 7 bigPlayer smallPlayer)) = sqrt (350 / pi)
   \<and> radius (createEntity 0 ''u'' (emptyConfig\<lparr>c_mass := Some 25\<rparr>)) = sqrt (25 / pi)
   \<and> engineOk (physicsEngine (fst (performSplit 1700000000000 ''player'' None soloSystem)))
   \<and> engineOk (updateEntityMass ''player'' 25 (physicsEngine soloSystem))
   \<and> map_option cradius (pentities (updateEntityMass ''player'' 25 (physicsEngine soloSystem)) ''player'')
       = Some (sqrt (25 / pi))"
proof -
  have r: "splitRatio (config soloSystem) = 1 / 2"
    by (simp add: soloSystem_facts defaultSplitConfig_def)
  have ok: "radiusOk bigPlayer" "radiusOk smallPlayer"
    by (simp_all add: bigPlayer_def smallPlayer_def radiusOk_def radiusFromMass_sqrt)
  have e: "mass (fst (collidePair 7 bigPlayer smallPlayer)) = 350"
    using bigPlayer_overlaps_smallPlayer bigPlayer_canEat_smallPlayer
    by (simp add: collidePair_def handleCollision_def bigPlayer_def smallPlayer_def)
  note t = radius_follows_mass [OF storeOk_soloGame engineOk_soloSystem, of 25,
      where A = bigPlayer and B = smallPlayer and t = 7 and c = emptyConfig and u = "''u''"
        and ev = slowEnv and a = "splitOf ''p''" and i = "''player''"]
  have "radiusOk (createEntity 7 ''u'' (emptyConfig\<lparr>c_mass := Some 25\<rparr>))"
    "radiusOk (fst (collidePair 7 bigPlayer smallPlayer))"
    "storeOk (entities (fst (step slowEnv soloGame)))"
    "storeOk (entities (processAction slowEnv (splitOf ''p'') soloGame))"
    "engineOk (updateEntityMass ''player'' 25 (physicsEngine soloSystem))"
    using t r ok by simp_all
  moreover have "engineOk (physicsEngine (fst (performSplit 1700000000000 ''player'' None soloSystem)))"
    using radius_follows_mass [OF storeOk_soloGame engineOk_soloSystem, of 25,
      where t = 1700000000000 and pid = "''player''" and d = None] r by simp
  moreover have "map_option cradius (pentities (updateEntityMass ''player'' 25 (physicsEngine soloSystem)) ''player'')
       = Some (sqrt (25 / pi))"
    by (simp add: soloSystem_facts calculateRadius_def)
  ultimately show ?thesis
    using storeOk_soloGame engineOk_soloSystem r ok e
    by (simp add: radiusOk_def radiusFromMass_sqrt)
qed

end
